theory Spec2Isabelle
  imports Main "HOL-Library.Word"
begin

section \<open>Machine types, status codes and constants\<close>

text \<open>
  The sample is written against the DSP/BIOS Link headers, which are not part of the
  sources. Their integer typedefs are modelled as machine words of the width their names
  give; \<open>Int16\<close> is a 16-bit word read as two's complement where the code compares it.
\<close>

type_synonym Uint8 = "8 word"
type_synonym Uint16 = "16 word"
type_synonym Int16 = "16 word"
type_synonym Uint32 = "32 word"

text \<open>
  \<open>DSP_STATUS\<close>: the status codes the two source files name, and one further success
  code and one further failure code standing for every code they do not name. The
  classification is the header's: \<open>DSP_FAILED\<close> is the negation of \<open>DSP_SUCCEEDED\<close>, the
  codes spelled with \<open>S\<close> (\<open>DSP_SOK\<close>, \<open>RINGIO_SPENDINGATTRIBUTE\<close>) are successes and the
  codes spelled with \<open>E\<close> are failures, and \<open>RINGIO_SUCCESS\<close> and \<open>RINGIO_EFAILURE\<close> are the
  RingIO spellings of \<open>DSP_SOK\<close> and \<open>DSP_EFAIL\<close>.
\<close>

datatype DSP_STATUS =
    DSP_SOK
  | RINGIO_SPENDINGATTRIBUTE
  | DSP_SOTHER
  | DSP_EFAIL
  | DSP_EINVALIDARG
  | RINGIO_EBUFEMPTY
  | RINGIO_EVARIABLEATTRIBUTE
  | RINGIO_EPENDINGDATA
  | DSP_EOTHER

fun DSP_SUCCEEDED :: "DSP_STATUS \<Rightarrow> bool" where
  "DSP_SUCCEEDED DSP_SOK = True"
| "DSP_SUCCEEDED RINGIO_SPENDINGATTRIBUTE = True"
| "DSP_SUCCEEDED DSP_SOTHER = True"
| "DSP_SUCCEEDED _ = False"

definition DSP_FAILED :: "DSP_STATUS \<Rightarrow> bool" where
  "DSP_FAILED st = (\<not> DSP_SUCCEEDED st)"

abbreviation RINGIO_SUCCESS :: DSP_STATUS where
  "RINGIO_SUCCESS \<equiv> DSP_SOK"

abbreviation RINGIO_EFAILURE :: DSP_STATUS where
  "RINGIO_EFAILURE \<equiv> DSP_EFAIL"

definition XFER_VALUE :: Uint8 where "XFER_VALUE = 5"
definition RINGIO_DATA_START :: Uint16 where "RINGIO_DATA_START = 1"
definition NOTIFY_DATA_START :: Uint16 where "NOTIFY_DATA_START = 2"
definition RINGIO_DATA_END :: Uint16 where "RINGIO_DATA_END = 3"
definition NOTIFY_DATA_END :: Uint16 where "NOTIFY_DATA_END = 4"
definition RINGIO_DSP_END :: Uint16 where "RINGIO_DSP_END = 5"
definition NOTIFY_DSP_END :: Uint16 where "NOTIFY_DSP_END = 6"
definition RING_IO_WRITER_BUF_SIZE :: Uint32 where "RING_IO_WRITER_BUF_SIZE = 1024"
definition RING_IO_ATTR_BUF_SIZE :: Uint32 where "RING_IO_ATTR_BUF_SIZE = 2048"
definition SAMPLE_POOL_ID :: nat where "SAMPLE_POOL_ID = 0"

section \<open>RING_IO_InitBuffer and RING_IO_Reader_VerifyData\<close>

text \<open>
  A buffer is the memory that starts at the pointer, indexed by byte offset; \<open>None\<close> is
  the NULL pointer. The loop counter \<open>i\<close> of \<open>RING_IO_InitBuffer\<close> is an \<open>Int16\<close> compared
  with the \<open>Uint32\<close> size: C converts \<open>i\<close> to \<open>int\<close> and then to \<open>unsigned\<close>, which is
  the sign-extending cast \<open>scast\<close>; \<open>i++\<close> wraps in 16 bits. The counter never reaches
  \<open>-1\<close> inside the loop (its conversion is the largest \<open>Uint32\<close>), which is why the loop
  terminates for every size.
\<close>

function InitBuffer_loop :: "Int16 \<Rightarrow> nat \<Rightarrow> Uint32 \<Rightarrow> (nat \<Rightarrow> Uint8) \<Rightarrow> (nat \<Rightarrow> Uint8)" where
  "InitBuffer_loop i ptr8 sz mem =
     (if (scast i :: Uint32) < sz
      then InitBuffer_loop (i + 1) (ptr8 + 1) sz (mem(ptr8 := XFER_VALUE))
      else mem)"
  by pat_completeness auto
termination
proof (relation "measure (\<lambda>(i, ptr8, sz, mem). 2 ^ 16 - unat i)")
  show "wf (measure (\<lambda>(i :: Int16, ptr8 :: nat, sz :: Uint32, mem :: nat \<Rightarrow> Uint8). 2 ^ 16 - unat i))"
    by simp
next
  fix i :: Int16 and ptr8 :: nat and sz :: Uint32 and mem :: "nat \<Rightarrow> Uint8"
  assume a: "(scast i :: Uint32) < sz"
  have "i \<noteq> -1"
  proof
    assume "i = -1"
    then have "(scast i :: Uint32) = -1" by simp
    with a show False by simp
  qed
  then have "1 + i \<noteq> 0"
    by (metis add_eq_0_iff)
  then have "unat (1 + i) = Suc (unat i)" by (rule unatSuc)
  then have s: "unat (i + 1) = Suc (unat i)" by (simp add: add.commute)
  have "unat (i + 1) < 2 ^ 16" using unsigned_less [of "i + 1"] by simp
  with s show "((i + 1, ptr8 + 1, sz, mem(ptr8 := XFER_VALUE)), (i, ptr8, sz, mem))
        \<in> measure (\<lambda>(i, ptr8, sz, mem). 2 ^ 16 - unat i)"
    by simp
qed

declare InitBuffer_loop.simps [simp del]

definition RING_IO_InitBuffer :: "(nat \<Rightarrow> Uint8) option \<Rightarrow> Uint32 \<Rightarrow> (nat \<Rightarrow> Uint8) option" where
  "RING_IO_InitBuffer buffer sz =
     (case buffer of
        None \<Rightarrow> None
      | Some mem \<Rightarrow> Some (InitBuffer_loop 0 0 sz mem))"

text \<open>
  \<open>RING_IO_Reader_VerifyData\<close>: the only live code is a loop that prints the first byte
  of the buffer twenty times while the status is a success; the comparison against the
  expected value is inside a comment. The function returns the status and, here, the
  bytes it printed.
\<close>

function VerifyData_loop :: "DSP_STATUS \<Rightarrow> (nat \<Rightarrow> Uint8) \<Rightarrow> nat \<Rightarrow> Uint8 list \<Rightarrow> Uint8 list" where
  "VerifyData_loop status ptr8 i printed =
     (if DSP_SUCCEEDED status \<and> i < 20
      then VerifyData_loop status ptr8 (i + 1) (printed @ [ptr8 0])
      else printed)"
  by pat_completeness auto
termination
  by (relation "measure (\<lambda>(status, ptr8, i, printed). 20 - i)") auto

declare VerifyData_loop.simps [simp del]

definition RING_IO_Reader_VerifyData :: "(nat \<Rightarrow> Uint8) \<Rightarrow> Uint32 \<Rightarrow> DSP_STATUS \<times> Uint8 list" where
  "RING_IO_Reader_VerifyData buffer sz =
     (let status = DSP_SOK;
          printed = VerifyData_loop status buffer 0 []
      in (status, printed))"

section \<open>The environment of a worker\<close>

text \<open>
  The DSP/BIOS Link library, the operating system layer (\<open>ring_io_os\<close>) and the peer
  processor are outside the two source files. A worker's run is modelled against a
  script of their answers, and records every call it makes, with its arguments and the
  answer it got. A RingIO handle is the name the channel was opened under, \<open>None\<close> being
  NULL; a semaphore pointer is a number, \<open>None\<close> being NULL. Status printing
  (\<open>RING_IO_0Print\<close>, \<open>RING_IO_1Print\<close>) is left out, except the message that reports a
  failed data verification.
\<close>

datatype RingIO_name = RINGIO1 | RINGIO2 | RINGIO3 | RINGIO4
datatype RingIO_OpenMode = RINGIO_MODE_WRITE | RINGIO_MODE_READ
datatype RingIO_NotifyType = RINGIO_NOTIFICATION_ONCE | RINGIO_NOTIFICATION_OTHER
datatype RingIO_NotifyFunc =
    RING_IO_Writer_Notify1 | RING_IO_Writer_Notify2
  | RING_IO_Reader_Notify1 | RING_IO_Reader_Notify2

type_synonym RingIO_Handle = "RingIO_name option"
type_synonym sem = "nat option"

datatype call =
    RingIO_open RingIO_name RingIO_OpenMode bool RingIO_Handle
  | RING_IO_CreateSem DSP_STATUS sem
  | RingIO_setNotifier RingIO_Handle RingIO_NotifyType Uint32 RingIO_NotifyFunc sem DSP_STATUS
  | RingIO_setAttribute RingIO_Handle Uint16 DSP_STATUS
  | RingIO_sendNotify RingIO_Handle Uint16 DSP_STATUS
  | RingIO_setvAttribute RingIO_Handle Uint32 DSP_STATUS
  | RingIO_acquire RingIO_Handle Uint32 DSP_STATUS Uint32
  | InitBuffer_call Uint32
  | RingIO_release RingIO_Handle Uint32 DSP_STATUS
  | RingIO_cancel RingIO_Handle DSP_STATUS
  | RingIO_getAttribute RingIO_Handle DSP_STATUS Uint16
  | RingIO_getvAttribute RingIO_Handle DSP_STATUS
  | Verification_failed_print Uint32
  | RING_IO_WaitSem sem DSP_STATUS
  | RING_IO_Sleep nat
  | RING_IO_YieldClient
  | RING_IO_DeleteSem sem DSP_STATUS
  | RingIO_getValidSize RingIO_Handle Uint32
  | RingIO_getValidAttrSize RingIO_Handle Uint32
  | RingIO_close RingIO_Handle DSP_STATUS
  | getchar char
  | RING_IO_Exit_client

text \<open>
  A loop that waits for the environment runs as long as the script has answers. When
  the script ends inside the loop the run is \<open>Blocked\<close>: the code has not returned.
\<close>

datatype 'a outcome = Returned 'a | Blocked 'a

fun state_of :: "'a outcome \<Rightarrow> 'a" where
  "state_of (Returned s) = s"
| "state_of (Blocked s) = s"

fun returned :: "'a outcome \<Rightarrow> bool" where
  "returned (Returned s) = True"
| "returned (Blocked s) = False"

fun and_then :: "'a outcome \<Rightarrow> ('a \<Rightarrow> 'a outcome) \<Rightarrow> 'a outcome" where
  "and_then (Returned s) f = f s"
| "and_then (Blocked s) f = Blocked s"

text \<open>
  The variables of a worker function: its locals that live across statements, the
  handles and semaphores it owns, and the globals it shares (\<open>Task_Run\<close>, and the
  \<open>fReaderStart\<close>/\<open>fReaderEnd\<close> pair of its channel pair). \<open>calls\<close> is the record of calls.
\<close>

record client =
  status :: DSP_STATUS
  bytesTransfered :: Uint32
  attrs0 :: Uint32
  acqSize :: Uint32
  rcvSize :: Uint32
  totalRcvbytes :: Uint32
  exitFlag :: bool
  RingIOWriterHandle :: RingIO_Handle
  RingIOReaderHandle :: RingIO_Handle
  semPtrWriter :: sem
  semPtrReader :: sem
  Task_Run :: bool
  fReaderStart :: bool
  fReaderEnd :: bool
  calls :: "call list"

definition emit :: "call \<Rightarrow> client \<Rightarrow> client" where
  "emit c s = s\<lparr>calls := calls s @ [c]\<rparr>"

text \<open>
  \<open>RING_IO_WriterClient1\<close> and \<open>RING_IO_WriterClient2\<close> are the same text up to the
  names below and the head of their outer loop. \<open>worker\<close> collects what differs.
\<close>

record worker =
  RingIOWriterName :: RingIO_name
  RingIOReaderName :: RingIO_name
  RING_IO_BytesToTransfer :: Uint32
  reader_BufferSize :: Uint32
  writer_watermark :: Uint32
  Writer_Notify :: RingIO_NotifyFunc
  Reader_Notify :: RingIO_NotifyFunc

text \<open>
  The sizes are globals that \<open>RING_IO_Create\<close> assigns before the workers start. Each is
  rounded by the header macro \<open>DSPLINK_ALIGN (x, DSPLINK_BUF_ALIGN)\<close>, taken here as the
  parameter \<open>align\<close>.
\<close>

record sizes =
  RING_IO_BufferSize :: Uint32
  RING_IO_BufferSize1 :: Uint32
  RING_IO_BufferSize2 :: Uint32
  RING_IO_BufferSize3 :: Uint32
  RING_IO_BytesToTransfer1 :: Uint32
  RING_IO_BytesToTransfer2 :: Uint32

definition RING_IO_Create_sizes :: "(Uint32 \<Rightarrow> Uint32) \<Rightarrow> sizes" where
  "RING_IO_Create_sizes align =
     \<lparr>RING_IO_BufferSize = align 1024,
      RING_IO_BufferSize1 = align 4096,
      RING_IO_BufferSize2 = align 2048,
      RING_IO_BufferSize3 = align 2048,
      RING_IO_BytesToTransfer1 = align 1024,
      RING_IO_BytesToTransfer2 = align 2048\<rparr>"

definition worker1 :: "sizes \<Rightarrow> worker" where
  "worker1 g =
     \<lparr>RingIOWriterName = RINGIO1,
      RingIOReaderName = RINGIO2,
      RING_IO_BytesToTransfer = RING_IO_BytesToTransfer1 g,
      reader_BufferSize = RING_IO_BufferSize1 g,
      writer_watermark = RING_IO_BytesToTransfer1 g,
      Writer_Notify = RING_IO_Writer_Notify1,
      Reader_Notify = RING_IO_Reader_Notify1\<rparr>"

definition worker2 :: "sizes \<Rightarrow> worker" where
  "worker2 g =
     \<lparr>RingIOWriterName = RINGIO3,
      RingIOReaderName = RINGIO4,
      RING_IO_BytesToTransfer = RING_IO_BytesToTransfer2 g,
      reader_BufferSize = RING_IO_BufferSize3 g,
      writer_watermark = RING_IO_WRITER_BUF_SIZE,
      Writer_Notify = RING_IO_Writer_Notify2,
      Reader_Notify = RING_IO_Reader_Notify2\<rparr>"

text \<open>
  The notification callbacks \<open>RING_IO_Reader_Notify1\<close> and \<open>RING_IO_Reader_Notify2\<close> run
  in the library's context and set the flags of their channel pair. Posting the
  semaphore is the environment's side: it shows as \<open>RING_IO_WaitSem\<close> returning.
\<close>

definition RING_IO_Reader_Notify :: "Uint16 \<Rightarrow> client \<Rightarrow> client" where
  "RING_IO_Reader_Notify msg s =
     (if msg = NOTIFY_DATA_START then s\<lparr>fReaderStart := True\<rparr>
      else if msg = NOTIFY_DATA_END then s\<lparr>fReaderEnd := True\<rparr>
      else s)"

definition notified :: "Uint16 list \<Rightarrow> client \<Rightarrow> client" where
  "notified msgs s = fold RING_IO_Reader_Notify msgs s"

section \<open>The writer's streaming loop\<close>

text \<open>
  One pass of \<open>while (RING_IO_BytesToTransfer == 0 || bytesTransfered < RING_IO_BytesToTransfer)\<close>
  consults the environment at most once per call; \<open>stream_step\<close> holds the answers of
  one pass: the status of \<open>RingIO_setvAttribute\<close>, the status and the granted size of
  \<open>RingIO_acquire\<close>, the statuses of \<open>RingIO_release\<close>, \<open>RingIO_cancel\<close> and
  \<open>RING_IO_WaitSem\<close>, and the notification messages whose callbacks ran meanwhile.
\<close>

record stream_step =
  setv_result :: DSP_STATUS
  acquire_result :: DSP_STATUS
  acquire_size :: Uint32
  release_result :: DSP_STATUS
  cancel_result :: DSP_STATUS
  wait_result :: DSP_STATUS
  stream_notified :: "Uint16 list"

definition stream_body :: "worker \<Rightarrow> stream_step \<Rightarrow> client \<Rightarrow> client" where
  "stream_body w r s0 =
     (let T = RING_IO_BytesToTransfer w;
          h = RingIOWriterHandle s0;
          s = notified (stream_notified r) s0;
          s1 = emit (RingIO_setvAttribute h T (setv_result r))
                 (s\<lparr>attrs0 := T, status := setv_result r\<rparr>)
      in if DSP_FAILED (setv_result r) then emit (RING_IO_Sleep 10) s1
         else
           let s2 = emit (RingIO_acquire h T (acquire_result r) (acquire_size r))
                      (s1\<lparr>status := acquire_result r, acqSize := acquire_size r\<rparr>)
           in if DSP_SUCCEEDED (acquire_result r) \<and> acquire_size r > 0 then
                let s3 = emit (InitBuffer_call (acquire_size r)) s2
                in if T \<noteq> 0 \<and> bytesTransfered s3 + acquire_size r > T then
                     let s4 = (if bytesTransfered s3 \<noteq> T
                               then emit (RingIO_release h (T - bytesTransfered s3) (release_result r)) s3
                               else s3);
                         s5 = emit (RingIO_cancel h (cancel_result r)) (s4\<lparr>status := cancel_result r\<rparr>)
                     in s5\<lparr>bytesTransfered := T\<rparr>
                   else
                     let s4 = emit (RingIO_release h (acquire_size r) (release_result r)) s3
                     in if DSP_FAILED (release_result r) then s4
                        else s4\<lparr>bytesTransfered := bytesTransfered s4 + acquire_size r\<rparr>
              else emit (RING_IO_WaitSem (semPtrWriter s2) (wait_result r))
                     (s2\<lparr>status := wait_result r\<rparr>))"

fun writer_stream :: "worker \<Rightarrow> stream_step list \<Rightarrow> client \<Rightarrow> client outcome" where
  "writer_stream w [] s =
     (if RING_IO_BytesToTransfer w = 0 \<or> bytesTransfered s < RING_IO_BytesToTransfer w
      then Blocked s else Returned s)"
| "writer_stream w (r # rs) s =
     (if RING_IO_BytesToTransfer w = 0 \<or> bytesTransfered s < RING_IO_BytesToTransfer w
      then writer_stream w rs (stream_body w r s) else Returned s)"

section \<open>The reader's loop\<close>

text \<open>
  One pass of \<open>while (exitFlag == FALSE)\<close>. \<open>read_step\<close> holds the answers of one pass:
  the status, the granted size and the memory of \<open>RingIO_acquire\<close>, the status of
  \<open>RingIO_release\<close>, the status and the attribute type of \<open>RingIO_getAttribute\<close>, the
  status of \<open>RingIO_getvAttribute\<close> and the word it stored into \<open>attrs [0]\<close> (\<open>None\<close> when
  it stored nothing), the status of \<open>RING_IO_WaitSem\<close>, and the callbacks that ran.
\<close>

record read_step =
  rd_acquire_result :: DSP_STATUS
  rd_acquire_size :: Uint32
  rd_buffer :: "nat \<Rightarrow> Uint8"
  rd_release_result :: DSP_STATUS
  getAttribute_result :: DSP_STATUS
  getAttribute_type :: Uint16
  getvAttribute_result :: DSP_STATUS
  getvAttribute_attrs0 :: "Uint32 option"
  rd_wait_result :: DSP_STATUS
  rd_notified :: "Uint16 list"

definition read_data :: "worker \<Rightarrow> read_step \<Rightarrow> client \<Rightarrow> client" where
  "read_data w r s1 =
     (let h = RingIOReaderHandle s1;
          s2 = s1\<lparr>rcvSize := rcvSize s1 - acqSize s1,
                  totalRcvbytes := totalRcvbytes s1 + acqSize s1\<rparr>;
          s3 = (if DSP_SOK \<noteq> fst (RING_IO_Reader_VerifyData (rd_buffer r) (acqSize s2))
                then emit (Verification_failed_print (totalRcvbytes s2)) s2 else s2);
          s4 = emit (RingIO_release h (acqSize s3) (rd_release_result r)) s3
      in if rcvSize s4 = 0
         then s4\<lparr>rcvSize := reader_BufferSize w, acqSize := reader_BufferSize w\<rparr>
         else s4\<lparr>acqSize := rcvSize s4\<rparr>)"

definition read_attribute :: "worker \<Rightarrow> read_step \<Rightarrow> client \<Rightarrow> client" where
  "read_attribute w r s1 =
     (let h = RingIOReaderHandle s1;
          attrStatus = getAttribute_result r;
          s2 = emit (RingIO_getAttribute h attrStatus (getAttribute_type r)) s1
      in if attrStatus = RINGIO_SUCCESS \<or> attrStatus = RINGIO_SPENDINGATTRIBUTE then
           (if getAttribute_type r = RINGIO_DATA_END then s2\<lparr>exitFlag := True\<rparr> else s2)
         else if attrStatus = RINGIO_EVARIABLEATTRIBUTE then
           let attrStatus' = getvAttribute_result r;
               s3 = emit (RingIO_getvAttribute h attrStatus')
                      (case getvAttribute_attrs0 r of None \<Rightarrow> s2 | Some v \<Rightarrow> s2\<lparr>attrs0 := v\<rparr>)
           in if attrStatus' = RINGIO_SUCCESS \<or> attrStatus' = RINGIO_SPENDINGATTRIBUTE
              then s3\<lparr>rcvSize := attrs0 s3, acqSize := attrs0 s3\<rparr>
              else s3
         else s2)"

definition read_body :: "worker \<Rightarrow> read_step \<Rightarrow> client \<Rightarrow> client" where
  "read_body w r s0 =
     (let h = RingIOReaderHandle s0;
          s = notified (rd_notified r) s0;
          st = rd_acquire_result r;
          s1 = emit (RingIO_acquire h (acqSize s) st (rd_acquire_size r))
                 (s\<lparr>status := st, acqSize := rd_acquire_size r\<rparr>);
          s2 = (if st = RINGIO_SUCCESS \<or> acqSize s1 > 0 then read_data w r s1
                else if st = RINGIO_SPENDINGATTRIBUTE \<and> acqSize s1 = 0 then read_attribute w r s1
                else if st = RINGIO_EFAILURE \<or> st = RINGIO_EBUFEMPTY then
                  emit (RING_IO_WaitSem (semPtrReader s1) (rd_wait_result r))
                    (s1\<lparr>status := rd_wait_result r\<rparr>)
                else s1\<lparr>acqSize := reader_BufferSize w\<rparr>)
      in if acqSize s2 = 0 then s2\<lparr>acqSize := reader_BufferSize w\<rparr> else s2)"

fun read_loop :: "worker \<Rightarrow> read_step list \<Rightarrow> client \<Rightarrow> client outcome" where
  "read_loop w [] s = (if exitFlag s = False then Blocked s else Returned s)"
| "read_loop w (r # rs) s =
     (if exitFlag s = False then read_loop w rs (read_body w r s) else Returned s)"

text \<open>The statement \<open>acqSize = RING_IO_BufferSize\<close> followed by the loop.\<close>

definition READ_LOOP :: "worker \<Rightarrow> read_step list \<Rightarrow> client \<Rightarrow> client outcome" where
  "READ_LOOP w rs s = read_loop w rs (s\<lparr>acqSize := reader_BufferSize w\<rparr>)"

section \<open>One frame: the body of a worker's outer loop\<close>

text \<open>
  \<open>frame_env\<close> is the environment of one pass of the outer \<open>while (1)\<close>: the character
  \<open>getchar\<close> returns (first worker), whether the other worker's store \<open>Task_Run = FALSE\<close>
  has happened by the time the flag is read (second worker), and the answers to every
  call of the pass, a list where the code retries.
\<close>

record frame_env =
  typed :: char
  peer_stopped :: bool
  start_attr_result :: DSP_STATUS
  start_notify_results :: "DSP_STATUS list"
  stream_steps :: "stream_step list"
  end_attr_results :: "DSP_STATUS list"
  end_notify_result :: DSP_STATUS
  start_wait_result :: DSP_STATUS
  start_wait_notified :: "Uint16 list"
  start_getAttribute :: "(DSP_STATUS \<times> Uint16) list"
  read_steps :: "read_step list"
  end_wait_result :: DSP_STATUS
  end_wait_notified :: "Uint16 list"

definition send_data_start :: "frame_env \<Rightarrow> client \<Rightarrow> client" where
  "send_data_start e s =
     (if DSP_SUCCEEDED (status s)
      then emit (RingIO_setAttribute (RingIOWriterHandle s) RINGIO_DATA_START (start_attr_result e))
             (s\<lparr>status := start_attr_result e\<rparr>)
      else s)"

fun notify_data_start :: "DSP_STATUS list \<Rightarrow> client \<Rightarrow> client outcome" where
  "notify_data_start [] s = Blocked s"
| "notify_data_start (st # sts) s =
     (let s1 = emit (RingIO_sendNotify (RingIOWriterHandle s) NOTIFY_DATA_START st)
                 (s\<lparr>status := st\<rparr>);
          s2 = (if DSP_FAILED st then emit (RING_IO_Sleep 10) s1 else s1)
      in if st \<noteq> RINGIO_SUCCESS then notify_data_start sts s2 else Returned s2)"

fun send_data_end :: "DSP_STATUS list \<Rightarrow> client \<Rightarrow> client outcome" where
  "send_data_end [] s = Blocked s"
| "send_data_end (st # sts) s =
     (let s1 = emit (RingIO_setAttribute (RingIOWriterHandle s) RINGIO_DATA_END st)
                 (s\<lparr>status := st\<rparr>)
      in if st \<noteq> RINGIO_SUCCESS then send_data_end sts s1 else Returned s1)"

definition notify_data_end :: "frame_env \<Rightarrow> client \<Rightarrow> client" where
  "notify_data_end e s =
     (if DSP_SUCCEEDED (status s) then
        let s1 = emit (RingIO_sendNotify (RingIOWriterHandle s) NOTIFY_DATA_END (end_notify_result e))
                   (s\<lparr>status := end_notify_result e\<rparr>)
        in if DSP_FAILED (end_notify_result e) then s1 else emit RING_IO_YieldClient s1
      else s)"

text \<open>The part headed "the execute of write task".\<close>

definition write_task :: "worker \<Rightarrow> frame_env \<Rightarrow> client \<Rightarrow> client outcome" where
  "write_task w e s =
     (let s1 = send_data_start e s
      in and_then
           (if DSP_SUCCEEDED (status s1) then notify_data_start (start_notify_results e) s1
            else Returned s1)
           (\<lambda>s2. if DSP_SUCCEEDED (status s2) then
                    and_then (writer_stream w (stream_steps e) s2)
                      (\<lambda>s3. and_then (send_data_end (end_attr_results e) (s3\<lparr>bytesTransfered := 0\<rparr>))
                         (\<lambda>s4. Returned (notify_data_end e s4)))
                  else Returned s2))"

fun get_data_start :: "(DSP_STATUS \<times> Uint16) list \<Rightarrow> client \<Rightarrow> client outcome" where
  "get_data_start [] s = Blocked s"
| "get_data_start ((st, ty) # rs) s =
     (let s1 = emit (RingIO_getAttribute (RingIOReaderHandle s) st ty) (s\<lparr>status := st\<rparr>)
      in if st = RINGIO_SUCCESS \<or> st = RINGIO_SPENDINGATTRIBUTE then
           (if ty = RINGIO_DATA_START then Returned s1
            else Returned (emit (RING_IO_Sleep 10) s1))
         else get_data_start rs (emit (RING_IO_Sleep 10) s1))"

text \<open>The part headed "the execute of read task", up to the end of the reader's loop.\<close>

definition read_task :: "worker \<Rightarrow> frame_env \<Rightarrow> client \<Rightarrow> client outcome" where
  "read_task w e s =
     (if DSP_SUCCEEDED (status s) then
        let s1 = notified (start_wait_notified e)
                   (emit (RING_IO_WaitSem (semPtrReader s) (start_wait_result e))
                      (s\<lparr>status := start_wait_result e\<rparr>))
        in and_then
             (if fReaderStart s1 = True
              then get_data_start (start_getAttribute e) (s1\<lparr>fReaderStart := False\<rparr>)
              else Returned s1)
             (\<lambda>s2. READ_LOOP w (read_steps e) s2)
      else Returned s)"

text \<open>The wait for the end notification and the resets that close the pass.\<close>

definition end_reader_task :: "worker \<Rightarrow> frame_env \<Rightarrow> client \<Rightarrow> client" where
  "end_reader_task w e s =
     (let s1 = (if fReaderEnd s \<noteq> True
                then notified (end_wait_notified e)
                       (emit (RING_IO_WaitSem (semPtrReader s) (end_wait_result e))
                          (s\<lparr>status := end_wait_result e\<rparr>))
                else s)
      in s1\<lparr>totalRcvbytes := 0, rcvSize := reader_BufferSize w,
             fReaderEnd := False, exitFlag := False\<rparr>)"

definition frame :: "worker \<Rightarrow> frame_env \<Rightarrow> client \<Rightarrow> client outcome" where
  "frame w e s =
     and_then (write_task w e s)
       (\<lambda>s1. and_then (read_task w e s1)
          (\<lambda>s2. Returned (end_reader_task w e s2)))"

text \<open>
  The outer loops. \<open>RING_IO_WriterClient1\<close> reads a character, and on \<open>'.'\<close> stores
  \<open>Task_Run = FALSE\<close> and leaves. \<open>RING_IO_WriterClient2\<close> sleeps, reads \<open>Task_Run\<close> and
  leaves when it is \<open>FALSE\<close>. An empty script leaves the worker in \<open>getchar\<close> or asleep.
\<close>

fun WriterClient1_frames :: "worker \<Rightarrow> frame_env list \<Rightarrow> client \<Rightarrow> client outcome" where
  "WriterClient1_frames w [] s = Blocked s"
| "WriterClient1_frames w (e # es) s =
     (let s1 = emit (getchar (typed e)) s
      in if typed e = CHR ''.'' then Returned (s1\<lparr>Task_Run := False\<rparr>)
         else and_then (frame w e s1) (WriterClient1_frames w es))"

fun WriterClient2_frames :: "worker \<Rightarrow> frame_env list \<Rightarrow> client \<Rightarrow> client outcome" where
  "WriterClient2_frames w [] s = Blocked s"
| "WriterClient2_frames w (e # es) s =
     (let s1 = emit (RING_IO_Sleep 5000000)
                 (if peer_stopped e then s\<lparr>Task_Run := False\<rparr> else s)
      in if Task_Run s1 = False then Returned s1
         else and_then (frame w e s1) (WriterClient2_frames w es))"

section \<open>Opening and closing a worker\<close>

text \<open>
  \<open>init_env\<close>: whether \<open>RingIO_open\<close> returned a handle (a list for the reader, which
  retries until it does), what \<open>RING_IO_CreateSem\<close> returned and stored, and the statuses
  of \<open>RingIO_setNotifier\<close>, which is retried while it fails.
\<close>

record init_env =
  open_writer :: bool
  create_sem_writer :: "DSP_STATUS \<times> sem"
  set_notifier_writer :: "DSP_STATUS list"
  open_reader :: "bool list"
  create_sem_reader :: "DSP_STATUS \<times> sem"
  set_notifier_reader :: "DSP_STATUS list"

definition open_writer_handle :: "worker \<Rightarrow> init_env \<Rightarrow> client \<Rightarrow> client" where
  "open_writer_handle w e s =
     (let h = (if open_writer e then Some (RingIOWriterName w) else None);
          s1 = emit (RingIO_open (RingIOWriterName w) RINGIO_MODE_WRITE True h)
                 (s\<lparr>RingIOWriterHandle := h\<rparr>)
      in if h = None then s1\<lparr>status := RINGIO_EFAILURE\<rparr> else s1)"

definition create_writer_sem :: "init_env \<Rightarrow> client \<Rightarrow> client" where
  "create_writer_sem e s =
     (if DSP_SUCCEEDED (status s)
      then emit (RING_IO_CreateSem (fst (create_sem_writer e)) (snd (create_sem_writer e)))
             (s\<lparr>status := fst (create_sem_writer e), semPtrWriter := snd (create_sem_writer e)\<rparr>)
      else s)"

fun set_writer_notifier :: "worker \<Rightarrow> DSP_STATUS list \<Rightarrow> client \<Rightarrow> client outcome" where
  "set_writer_notifier w [] s = Blocked s"
| "set_writer_notifier w (st # sts) s =
     (let s1 = emit (RingIO_setNotifier (RingIOWriterHandle s) RINGIO_NOTIFICATION_ONCE
                       (writer_watermark w) (Writer_Notify w) (semPtrWriter s) st)
                 (s\<lparr>status := st\<rparr>);
          s2 = (if st \<noteq> RINGIO_SUCCESS then emit (RING_IO_Sleep 10) s1 else s1)
      in if DSP_FAILED st then set_writer_notifier w sts s2 else Returned s2)"

fun open_reader_handle :: "worker \<Rightarrow> bool list \<Rightarrow> client \<Rightarrow> client outcome" where
  "open_reader_handle w [] s = Blocked s"
| "open_reader_handle w (ok # oks) s =
     (let h = (if ok then Some (RingIOReaderName w) else None);
          s1 = emit (RingIO_open (RingIOReaderName w) RINGIO_MODE_READ False h)
                 (s\<lparr>RingIOReaderHandle := h\<rparr>)
      in if h = None then open_reader_handle w oks s1 else Returned s1)"

definition create_reader_sem :: "init_env \<Rightarrow> client \<Rightarrow> client" where
  "create_reader_sem e s =
     emit (RING_IO_CreateSem (fst (create_sem_reader e)) (snd (create_sem_reader e)))
       (s\<lparr>status := fst (create_sem_reader e), semPtrReader := snd (create_sem_reader e)\<rparr>)"

fun set_reader_notifier :: "worker \<Rightarrow> DSP_STATUS list \<Rightarrow> client \<Rightarrow> client outcome" where
  "set_reader_notifier w [] s = Blocked s"
| "set_reader_notifier w (st # sts) s =
     (let s1 = emit (RingIO_setNotifier (RingIOReaderHandle s) RINGIO_NOTIFICATION_ONCE
                       0 (Reader_Notify w) (semPtrReader s) st)
                 (s\<lparr>status := st\<rparr>);
          s2 = (if DSP_FAILED st then emit (RING_IO_Sleep 10) s1 else s1)
      in if DSP_FAILED st then set_reader_notifier w sts s2 else Returned s2)"

text \<open>The parts headed "initial the write task" and "initial the read task".\<close>

definition client_open :: "worker \<Rightarrow> init_env \<Rightarrow> client \<Rightarrow> client outcome" where
  "client_open w e s =
     (let s1 = create_writer_sem e (open_writer_handle w e s)
      in and_then
           (if DSP_SUCCEEDED (status s1) then set_writer_notifier w (set_notifier_writer e) s1
            else Returned s1)
           (\<lambda>s2. and_then (open_reader_handle w (open_reader e) s2)
              (\<lambda>s3. let s4 = create_reader_sem e s3
                    in if DSP_SUCCEEDED (status s4)
                       then set_reader_notifier w (set_notifier_reader e) s4
                       else Returned s4)))"

text \<open>
  \<open>close_env\<close>: the statuses of the final \<open>RingIO_sendNotify\<close> (retried while it fails),
  of the two \<open>RING_IO_DeleteSem\<close> and the two \<open>RingIO_close\<close>, and what each poll of
  \<open>RingIO_getValidSize\<close> and \<open>RingIO_getValidAttrSize\<close> on the writer handle returns.
  C's \<open>||\<close> does not ask for the attribute size once the data size is nonzero.
\<close>

record close_env =
  dsp_end_results :: "DSP_STATUS list"
  delete_sem_writer :: DSP_STATUS
  valid_sizes :: "(Uint32 \<times> Uint32) list"
  close_writer_result :: DSP_STATUS
  delete_sem_reader :: DSP_STATUS
  close_reader_result :: DSP_STATUS

fun notify_dsp_end :: "DSP_STATUS list \<Rightarrow> client \<Rightarrow> client outcome" where
  "notify_dsp_end [] s = Blocked s"
| "notify_dsp_end (tmpStatus # sts) s =
     (let s1 = emit (RingIO_sendNotify (RingIOWriterHandle s) NOTIFY_DSP_END tmpStatus) s
      in if DSP_FAILED tmpStatus
         then notify_dsp_end sts (emit (RING_IO_Sleep 10) (s1\<lparr>status := tmpStatus\<rparr>))
         else Returned (s1\<lparr>status := RINGIO_SUCCESS\<rparr>))"

definition delete_sem :: "sem \<Rightarrow> DSP_STATUS \<Rightarrow> client \<Rightarrow> client" where
  "delete_sem semPtr tmpStatus s =
     (if semPtr \<noteq> None then
        let s1 = emit (RING_IO_DeleteSem semPtr tmpStatus) s
        in if DSP_SUCCEEDED (status s1) \<and> DSP_FAILED tmpStatus
           then s1\<lparr>status := tmpStatus\<rparr> else s1
      else s)"

fun drain_wait :: "(Uint32 \<times> Uint32) list \<Rightarrow> client \<Rightarrow> client outcome" where
  "drain_wait [] s = Blocked s"
| "drain_wait ((validSize, validAttrSize) # polls) s =
     (let h = RingIOWriterHandle s;
          s1 = emit (RingIO_getValidSize h validSize) s
      in if validSize \<noteq> 0 then drain_wait polls (emit (RING_IO_Sleep 10) s1)
         else
           let s2 = emit (RingIO_getValidAttrSize h validAttrSize) s1
           in if validAttrSize \<noteq> 0 then drain_wait polls (emit (RING_IO_Sleep 10) s2)
              else Returned s2)"

definition close_writer :: "close_env \<Rightarrow> client \<Rightarrow> client outcome" where
  "close_writer e s =
     (if RingIOWriterHandle s \<noteq> None then
        and_then (drain_wait (valid_sizes e) s)
          (\<lambda>s1. Returned (emit (RingIO_close (RingIOWriterHandle s1) (close_writer_result e)) s1))
      else Returned s)"

definition close_reader :: "close_env \<Rightarrow> client \<Rightarrow> client" where
  "close_reader e s =
     (if RingIOReaderHandle s \<noteq> None
      then emit (RingIO_close (RingIOReaderHandle s) (close_reader_result e)) s
      else s)"

text \<open>Everything after the outer loop, down to \<open>RING_IO_Exit_client\<close>.\<close>

definition client_close :: "close_env \<Rightarrow> client \<Rightarrow> client outcome" where
  "client_close e s =
     and_then (notify_dsp_end (dsp_end_results e) s)
       (\<lambda>s1. and_then (close_writer e (delete_sem (semPtrWriter s1) (delete_sem_writer e) s1))
          (\<lambda>s2. Returned
             (emit RING_IO_Exit_client
                (close_reader e (delete_sem (semPtrReader s2) (delete_sem_reader e) s2)))))"

section \<open>The two worker functions\<close>

text \<open>
  The locals at entry: \<open>status = DSP_SOK\<close>, \<open>bytesTransfered = 0\<close>,
  \<open>rcvSize = RING_IO_BufferSize\<close>, \<open>totalRcvbytes = 0\<close>, \<open>exitFlag = FALSE\<close>, the semaphore
  pointers NULL. \<open>attrs\<close> and \<open>acqSize\<close> are not initialised and the globals have whatever
  value they have when the thread starts; these come with the argument \<open>s\<close>.
\<close>

definition client_entry :: "worker \<Rightarrow> client \<Rightarrow> client" where
  "client_entry w s =
     s\<lparr>status := DSP_SOK, bytesTransfered := 0, rcvSize := reader_BufferSize w,
       totalRcvbytes := 0, exitFlag := False, semPtrWriter := None, semPtrReader := None\<rparr>"

record client_env =
  at_open :: init_env
  frames :: "frame_env list"
  at_close :: close_env

definition RING_IO_WriterClient1 :: "sizes \<Rightarrow> client_env \<Rightarrow> client \<Rightarrow> client outcome" where
  "RING_IO_WriterClient1 g e s =
     and_then (client_open (worker1 g) (at_open e) (client_entry (worker1 g) s))
       (\<lambda>s1. and_then (WriterClient1_frames (worker1 g) (frames e) s1)
          (\<lambda>s2. client_close (at_close e) s2))"

definition RING_IO_WriterClient2 :: "sizes \<Rightarrow> client_env \<Rightarrow> client \<Rightarrow> client outcome" where
  "RING_IO_WriterClient2 g e s =
     and_then (client_open (worker2 g) (at_open e) (client_entry (worker2 g) s))
       (\<lambda>s1. and_then (WriterClient2_frames (worker2 g) (frames e) s1)
          (\<lambda>s2. client_close (at_close e) s2))"

section \<open>The session: main, RING_IO_Main, RING_IO_Create, RING_IO_Delete\<close>

text \<open>
  The calls of the session controller, each with the processor id it passes where it
  passes one, and the status it got. \<open>POOL_makePoolId (processorId, SAMPLE_POOL_ID)\<close> is
  shown by its two arguments. \<open>RingIO_create\<close> and \<open>RingIO_delete\<close> are the calls of the
  build without \<open>DSPLINK_LEGACY_SUPPORT\<close>, which take the processor id.
\<close>

datatype sys_call =
    Usage_print
  | RING_IO_Main_call "string option" string string string
  | Invalid_processor_print Uint8
  | Invalid_arguments_print
  | RING_IO_OS_init DSP_STATUS
  | PROC_setup DSP_STATUS
  | PROC_attach Uint8 DSP_STATUS
  | POOL_open Uint8 nat DSP_STATUS
  | PROC_load Uint8 string "Uint32 list" DSP_STATUS
  | RingIO_create Uint8 RingIO_name Uint32 DSP_STATUS
  | PROC_start Uint8 DSP_STATUS
  | RING_IO_Create_client RingIO_NotifyFunc DSP_STATUS
  | RING_IO_Join_client RingIO_NotifyFunc
  | RingIO_delete Uint8 RingIO_name DSP_STATUS
  | RING_IO_Sleep_main nat
  | PROC_stop Uint8 DSP_STATUS
  | POOL_close Uint8 nat DSP_STATUS
  | PROC_detach Uint8 DSP_STATUS
  | PROC_destroy DSP_STATUS
  | RING_IO_OS_exit DSP_STATUS

record main_env =
  os_init_result :: DSP_STATUS
  proc_setup_result :: DSP_STATUS
  proc_attach_result :: DSP_STATUS
  pool_open_result :: DSP_STATUS
  proc_load_result :: DSP_STATUS
  create1_result :: DSP_STATUS
  create2_result :: DSP_STATUS
  proc_start_result :: DSP_STATUS
  create_client1_result :: DSP_STATUS
  create_client2_result :: DSP_STATUS
  join1_returns :: bool
  join2_returns :: bool
  delete1_results :: "DSP_STATUS list"
  delete2_results :: "DSP_STATUS list"
  proc_stop_result :: DSP_STATUS
  pool_close_result :: DSP_STATUS
  proc_detach_result :: DSP_STATUS
  proc_destroy_result :: DSP_STATUS
  os_exit_result :: DSP_STATUS

record session =
  session_status :: DSP_STATUS
  session_calls :: "sys_call list"

definition sys :: "sys_call \<Rightarrow> DSP_STATUS \<Rightarrow> session \<Rightarrow> session" where
  "sys c st p = \<lparr>session_status = st, session_calls = session_calls p @ [c]\<rparr>"

definition when_succeeded :: "(session \<Rightarrow> session) \<Rightarrow> session \<Rightarrow> session" where
  "when_succeeded f p = (if DSP_SUCCEEDED (session_status p) then f p else p)"

text \<open>
  \<open>RING_IO_Create (dspExecutable, processorId)\<close>. The writer's RingIO objects are
  created with data buffer sizes \<open>size [0]\<close> and \<open>size [2]\<close>; the image gets \<open>size [1]\<close>,
  \<open>size [3]\<close>, the attribute buffer size and 0 as its arguments.
\<close>

definition RING_IO_Create :: "sizes \<Rightarrow> main_env \<Rightarrow> string \<Rightarrow> Uint8 \<Rightarrow> session \<Rightarrow> session" where
  "RING_IO_Create g e dspExecutable processorId p =
     (let p1 = sys (RING_IO_OS_init (os_init_result e)) (os_init_result e) p;
          p2 = sys (PROC_setup (proc_setup_result e)) (proc_setup_result e) p1;
          p3 = when_succeeded
                 (sys (PROC_attach processorId (proc_attach_result e)) (proc_attach_result e)) p2;
          p4 = when_succeeded
                 (sys (POOL_open processorId SAMPLE_POOL_ID (pool_open_result e)) (pool_open_result e)) p3;
          p5 = when_succeeded
                 (sys (PROC_load processorId dspExecutable
                         [RING_IO_BufferSize1 g, RING_IO_BufferSize3 g, RING_IO_ATTR_BUF_SIZE, 0]
                         (proc_load_result e)) (proc_load_result e)) p4;
          p6 = when_succeeded
                 (sys (RingIO_create processorId RINGIO1 (RING_IO_BufferSize g) (create1_result e))
                    (create1_result e)) p5;
          p7 = when_succeeded
                 (sys (RingIO_create processorId RINGIO3 (RING_IO_BufferSize2 g) (create2_result e))
                    (create2_result e)) p6
      in when_succeeded
           (sys (PROC_start processorId (proc_start_result e)) (proc_start_result e)) p7)"

fun RingIO_delete_loop :: "Uint8 \<Rightarrow> RingIO_name \<Rightarrow> DSP_STATUS list \<Rightarrow> session \<Rightarrow> session outcome" where
  "RingIO_delete_loop processorId name [] p = Blocked p"
| "RingIO_delete_loop processorId name (tmpStatus # sts) p =
     (let p1 = p\<lparr>session_calls := session_calls p @ [RingIO_delete processorId name tmpStatus]\<rparr>
      in if DSP_FAILED tmpStatus
         then RingIO_delete_loop processorId name sts
                (sys (RING_IO_Sleep_main 10) tmpStatus p1)
         else Returned (p1\<lparr>session_status := RINGIO_SUCCESS\<rparr>))"

definition cleanup_step :: "sys_call \<Rightarrow> DSP_STATUS \<Rightarrow> session \<Rightarrow> session" where
  "cleanup_step c tmpStatus p =
     (let p1 = p\<lparr>session_calls := session_calls p @ [c]\<rparr>
      in if DSP_SUCCEEDED (session_status p1) \<and> DSP_FAILED tmpStatus
         then p1\<lparr>session_status := tmpStatus\<rparr> else p1)"

definition RING_IO_Delete :: "main_env \<Rightarrow> Uint8 \<Rightarrow> session \<Rightarrow> session outcome" where
  "RING_IO_Delete e processorId p =
     and_then (RingIO_delete_loop processorId RINGIO1 (delete1_results e) (p\<lparr>session_status := DSP_SOK\<rparr>))
       (\<lambda>p1. and_then (RingIO_delete_loop processorId RINGIO3 (delete2_results e) p1)
          (\<lambda>p2. Returned
             (cleanup_step (RING_IO_OS_exit (os_exit_result e)) (os_exit_result e)
                (cleanup_step (PROC_destroy (proc_destroy_result e)) (proc_destroy_result e)
                   (cleanup_step (PROC_detach processorId (proc_detach_result e)) (proc_detach_result e)
                      (cleanup_step (POOL_close processorId SAMPLE_POOL_ID (pool_close_result e))
                         (pool_close_result e)
                         (cleanup_step (PROC_stop processorId (proc_stop_result e))
                            (proc_stop_result e) p2)))))))"

definition create_clients :: "main_env \<Rightarrow> session \<Rightarrow> session" where
  "create_clients e p =
     (if DSP_SUCCEEDED (session_status p) then
        let p1 = sys (RING_IO_Create_client RING_IO_Writer_Notify1 (create_client1_result e))
                   (create_client1_result e) p
        in if DSP_SUCCEEDED (session_status p1)
           then sys (RING_IO_Create_client RING_IO_Writer_Notify2 (create_client2_result e))
                  (create_client2_result e) p1
           else p1
      else p)"

definition join_clients :: "main_env \<Rightarrow> session \<Rightarrow> session outcome" where
  "join_clients e p =
     (if DSP_SUCCEEDED (session_status p) then
        let p1 = p\<lparr>session_calls := session_calls p @ [RING_IO_Join_client RING_IO_Writer_Notify1]\<rparr>
        in if join1_returns e then
             let p2 = p1\<lparr>session_calls := session_calls p1 @ [RING_IO_Join_client RING_IO_Writer_Notify2]\<rparr>
             in if join2_returns e then Returned p2 else Blocked p2
           else Blocked p1
      else Returned p)"

text \<open>
  \<open>RING_IO_Main\<close>. Its local \<open>processorId\<close> is initialised to 0; the statements that
  assigned it from \<open>strProcessorId\<close> are inside a comment. \<open>MAX_DSPS\<close> is a header
  constant, a parameter here. The function returns nothing; the model returns the record
  of its calls.
\<close>

definition RING_IO_Main ::
  "nat \<Rightarrow> sizes \<Rightarrow> main_env \<Rightarrow> string option \<Rightarrow> string \<Rightarrow> string \<Rightarrow> string \<Rightarrow>
   sys_call list \<Rightarrow> sys_call list outcome" where
  "RING_IO_Main MAX_DSPS g e dspExecutable strBufferSize strBytesToTransfer strProcessorId cs =
     (let processorId = (0 :: Uint8);
          p = \<lparr>session_status = DSP_SOK, session_calls = cs\<rparr>
      in case dspExecutable of
           None \<Rightarrow> Returned (session_calls (sys Invalid_arguments_print DSP_EINVALIDARG p))
         | Some exe \<Rightarrow>
             let p1 = (if unat processorId \<ge> MAX_DSPS
                       then sys (Invalid_processor_print processorId) DSP_EINVALIDARG p else p)
             in if session_status p1 = DSP_SOK then
                  case and_then (join_clients e (create_clients e (RING_IO_Create g e exe processorId p1)))
                         (RING_IO_Delete e processorId) of
                    Returned p2 \<Rightarrow> Returned (session_calls p2)
                  | Blocked p2 \<Rightarrow> Blocked (session_calls p2)
                else Returned (session_calls p1))"

text \<open>
  \<open>atoi\<close> is the C library's: white space, an optional sign, decimal digits. (A value
  outside \<open>int\<close> is undefined in C; the model gives the number the digits denote.)
\<close>

definition isspace :: "char \<Rightarrow> bool" where
  "isspace c = (of_char c \<in> {32 :: nat, 9, 10, 11, 12, 13})"

definition isdigit :: "char \<Rightarrow> bool" where
  "isdigit c = (48 \<le> (of_char c :: nat) \<and> (of_char c :: nat) \<le> 57)"

fun digits_value :: "int \<Rightarrow> string \<Rightarrow> int" where
  "digits_value acc [] = acc"
| "digits_value acc (c # cs) =
     (if isdigit c then digits_value (acc * 10 + (int (of_char c) - 48)) cs else acc)"

definition atoi :: "string \<Rightarrow> int" where
  "atoi str =
     (case dropWhile isspace str of
        [] \<Rightarrow> 0
      | c # cs \<Rightarrow>
          if c = CHR ''-'' then - digits_value 0 cs
          else if c = CHR ''+'' then digits_value 0 cs
          else digits_value 0 (c # cs))"

text \<open>
  \<open>main (argc, argv)\<close>, with \<open>argc = length argv\<close>. \<open>processorId\<close> is a \<open>Uint8\<close>: the
  assignment \<open>processorId = atoi (argv [2])\<close> keeps the low eight bits of the number.
  \<open>MAX_PROCESSORS\<close> is a header constant, a parameter here. The result is the exit
  status and the calls made, or the calls made so far when \<open>RING_IO_Main\<close> does not
  return.
\<close>

datatype exit = Exit int "sys_call list" | No_exit "sys_call list"

definition main ::
  "nat \<Rightarrow> nat \<Rightarrow> sizes \<Rightarrow> main_env \<Rightarrow> string list \<Rightarrow> exit" where
  "main MAX_PROCESSORS MAX_DSPS g e argv =
     (let argc = length argv
      in if argc \<noteq> 3 \<and> argc \<noteq> 2 then Exit 0 [Usage_print]
         else
           let dspExecutable = argv ! 1;
               strBufferSize = ''2048'';
               strTotalBytes = ''128'';
               strProcessorId = (if argc = 2 then ''0'' else argv ! 2);
               processorId = (if argc = 2 then 0 else (word_of_int (atoi (argv ! 2)) :: Uint8))
           in if unat processorId < MAX_PROCESSORS then
                case RING_IO_Main MAX_DSPS g e (Some dspExecutable) strBufferSize strTotalBytes
                       strProcessorId
                       [RING_IO_Main_call (Some dspExecutable) strBufferSize strTotalBytes
                          strProcessorId] of
                  Returned cs \<Rightarrow> Exit 0 cs
                | Blocked cs \<Rightarrow> No_exit cs
              else Exit 0 [])"

section \<open>Observations on the record of calls\<close>

text \<open>
  Modelled from the spec: \<open>RingIO_acquire\<close>, \<open>RingIO_release\<close> and \<open>RingIO_cancel\<close>
  are the library's and not among the sources. By the spec (4.1) \<open>release (size)\<close>
  commits \<open>size\<close> bytes of the prior acquisition and \<open>cancel ()\<close> discards the unreleased
  remainder of the last acquisition. \<open>ring_account\<close> follows a record of calls with the
  pair (bytes of the last acquisition not yet released, bytes discarded by cancels so
  far), counting the calls the library accepted.
\<close>

fun ring_account :: "call \<Rightarrow> nat \<times> nat \<Rightarrow> nat \<times> nat" where
  "ring_account (RingIO_acquire h req st got) (unreleased, discarded) =
     (if DSP_SUCCEEDED st then (unat got, discarded) else (unreleased, discarded))"
| "ring_account (RingIO_release h n st) (unreleased, discarded) =
     (if DSP_SUCCEEDED st then (unreleased - unat n, discarded) else (unreleased, discarded))"
| "ring_account (RingIO_cancel h st) (unreleased, discarded) =
     (if DSP_SUCCEEDED st then (0, discarded + unreleased) else (unreleased, discarded))"
| "ring_account _ a = a"

definition cancelled_bytes :: "call list \<Rightarrow> nat" where
  "cancelled_bytes cs = snd (fold ring_account cs (0, 0))"

text \<open>
  An acquire/release cycle of the streaming loop is a pass in which the variable
  attribute is set, the acquire is granted and the release is accepted: the passes that
  advance \<open>bytesTransfered\<close>. In the record of calls a cycle shows as an accepted
  \<open>RingIO_release\<close>.
\<close>

definition completes_cycle :: "stream_step \<Rightarrow> bool" where
  "completes_cycle r =
     (DSP_SUCCEEDED (setv_result r) \<and> DSP_SUCCEEDED (acquire_result r) \<and> acquire_size r > 0
      \<and> DSP_SUCCEEDED (release_result r))"

fun accepted_release :: "call \<Rightarrow> bool" where
  "accepted_release (RingIO_release h n st) = DSP_SUCCEEDED st"
| "accepted_release _ = False"

fun is_release :: "call \<Rightarrow> bool" where
  "is_release (RingIO_release h n st) = True"
| "is_release _ = False"

fun granted_acquire :: "call \<Rightarrow> bool" where
  "granted_acquire (RingIO_acquire h req st got) = (DSP_SUCCEEDED st \<and> got > 0)"
| "granted_acquire _ = False"

text \<open>The calls a run added to the record it started with.\<close>

definition new_calls :: "client \<Rightarrow> client \<Rightarrow> call list" where
  "new_calls s s' = drop (length (calls s)) (calls s')"

text \<open>The sizes a record of calls asks \<open>RingIO_acquire\<close> for, in order.\<close>

fun request_of :: "call \<Rightarrow> Uint32 list" where
  "request_of (RingIO_acquire h req st got) = [req]"
| "request_of _ = []"

definition acquire_requests :: "call list \<Rightarrow> Uint32 list" where
  "acquire_requests cs = concat (map request_of cs)"

text \<open>
  \<open>closes_only_when_drained h cs\<close>: every \<open>RingIO_close\<close> on the handle \<open>h\<close> in the record
  \<open>cs\<close> comes directly after \<open>RingIO_getValidSize\<close> and \<open>RingIO_getValidAttrSize\<close> on \<open>h\<close>
  both returned 0. The record is read from its latest call back.
\<close>

fun closes_when_drained_rev :: "RingIO_Handle \<Rightarrow> call list \<Rightarrow> bool" where
  "closes_when_drained_rev h [] = True"
| "closes_when_drained_rev h (RingIO_close h' st # older) =
     ((if h' = h
       then (case older of
               a # v # _ \<Rightarrow> a = RingIO_getValidAttrSize h 0 \<and> v = RingIO_getValidSize h 0
             | _ \<Rightarrow> False)
       else True)
      \<and> closes_when_drained_rev h older)"
| "closes_when_drained_rev h (c # older) = closes_when_drained_rev h older"

definition closes_only_when_drained :: "RingIO_Handle \<Rightarrow> call list \<Rightarrow> bool" where
  "closes_only_when_drained h cs = closes_when_drained_rev h (rev cs)"

text \<open>
  What one poll of the drain loop adds to the record while the channel is not drained,
  and whether a poll finds it drained.
\<close>

definition drained :: "Uint32 \<times> Uint32 \<Rightarrow> bool" where
  "drained p = (fst p = 0 \<and> snd p = 0)"

definition poll_calls :: "RingIO_Handle \<Rightarrow> Uint32 \<times> Uint32 \<Rightarrow> call list" where
  "poll_calls h p =
     (if fst p \<noteq> 0 then [RingIO_getValidSize h (fst p), RING_IO_Sleep 10]
      else [RingIO_getValidSize h 0, RingIO_getValidAttrSize h (snd p), RING_IO_Sleep 10])"

fun map_outcome :: "('a \<Rightarrow> 'a) \<Rightarrow> 'a outcome \<Rightarrow> 'a outcome" where
  "map_outcome f (Returned s) = Returned (f s)"
| "map_outcome f (Blocked s) = Blocked (f s)"

text \<open>
  The processor ids a record of session calls passes to the library, in order, and the
  calls an outcome holds.
\<close>

fun processor_of :: "sys_call \<Rightarrow> Uint8 list" where
  "processor_of (PROC_attach p st) = [p]"
| "processor_of (POOL_open p n st) = [p]"
| "processor_of (PROC_load p exe args st) = [p]"
| "processor_of (RingIO_create p name sz st) = [p]"
| "processor_of (PROC_start p st) = [p]"
| "processor_of (RingIO_delete p name st) = [p]"
| "processor_of (PROC_stop p st) = [p]"
| "processor_of (POOL_close p n st) = [p]"
| "processor_of (PROC_detach p st) = [p]"
| "processor_of _ = []"

definition processor_ids :: "sys_call list \<Rightarrow> Uint8 list" where
  "processor_ids cs = concat (map processor_of cs)"

fun calls_of :: "exit \<Rightarrow> sys_call list" where
  "calls_of (Exit n cs) = cs"
| "calls_of (No_exit cs) = cs"

section \<open>Concrete runs\<close>

text \<open>
  The sizes \<open>RING_IO_Create\<close> assigns when every value is already aligned, a client with
  both channels open and nothing called yet, and environments in which every call
  succeeds at once.
\<close>

definition aligned_sizes :: sizes where
  "aligned_sizes = RING_IO_Create_sizes (\<lambda>x. x)"

definition opened_client :: "worker \<Rightarrow> client" where
  "opened_client w =
     \<lparr>status = DSP_SOK, bytesTransfered = 0, attrs0 = 0, acqSize = 0,
      rcvSize = reader_BufferSize w, totalRcvbytes = 0, exitFlag = False,
      RingIOWriterHandle = Some (RingIOWriterName w),
      RingIOReaderHandle = Some (RingIOReaderName w),
      semPtrWriter = Some 1, semPtrReader = Some 2,
      Task_Run = True, fReaderStart = False, fReaderEnd = False, calls = []\<rparr>"

definition granted :: "Uint32 \<Rightarrow> stream_step" where
  "granted n =
     \<lparr>setv_result = DSP_SOK, acquire_result = DSP_SOK, acquire_size = n,
      release_result = DSP_SOK, cancel_result = DSP_SOK, wait_result = DSP_SOK,
      stream_notified = []\<rparr>"

definition buffer_full :: stream_step where
  "buffer_full =
     \<lparr>setv_result = DSP_SOK, acquire_result = DSP_EFAIL, acquire_size = 0,
      release_result = DSP_SOK, cancel_result = DSP_SOK, wait_result = DSP_SOK,
      stream_notified = []\<rparr>"

text \<open>Scenario C of the spec: a frame of 1000 bytes.\<close>

definition scenario_C :: worker where
  "scenario_C = worker1 (aligned_sizes\<lparr>RING_IO_BytesToTransfer1 := 1000\<rparr>)"

text \<open>A worker whose frame target is 0.\<close>

definition unbounded_worker :: worker where
  "unbounded_worker = worker1 (aligned_sizes\<lparr>RING_IO_BytesToTransfer1 := 0\<rparr>)"

text \<open>A pass of the reader's loop that finds the buffer empty.\<close>

definition buffer_empty :: read_step where
  "buffer_empty =
     \<lparr>rd_acquire_result = RINGIO_EBUFEMPTY, rd_acquire_size = 0, rd_buffer = (\<lambda>k. 0),
      rd_release_result = DSP_SOK, getAttribute_result = DSP_EFAIL, getAttribute_type = 0,
      getvAttribute_result = DSP_EFAIL, getvAttribute_attrs0 = None,
      rd_wait_result = DSP_SOK, rd_notified = []\<rparr>"

text \<open>A pass that gets \<open>n\<close> bytes, and a pass that finds the end-of-data attribute.\<close>

definition data_read :: "Uint32 \<Rightarrow> read_step" where
  "data_read n =
     \<lparr>rd_acquire_result = DSP_SOK, rd_acquire_size = n, rd_buffer = (\<lambda>k. 0),
      rd_release_result = DSP_SOK, getAttribute_result = DSP_EFAIL, getAttribute_type = 0,
      getvAttribute_result = DSP_EFAIL, getvAttribute_attrs0 = None,
      rd_wait_result = DSP_SOK, rd_notified = []\<rparr>"

definition data_end_read :: read_step where
  "data_end_read =
     \<lparr>rd_acquire_result = RINGIO_SPENDINGATTRIBUTE, rd_acquire_size = 0, rd_buffer = (\<lambda>k. 0),
      rd_release_result = DSP_SOK, getAttribute_result = DSP_SOK,
      getAttribute_type = RINGIO_DATA_END,
      getvAttribute_result = DSP_EFAIL, getvAttribute_attrs0 = None,
      rd_wait_result = DSP_SOK, rd_notified = []\<rparr>"

text \<open>A pass of the reader's loop that gets \<open>n\<close> bytes counting up from 0.\<close>

definition garbled_read :: "Uint32 \<Rightarrow> read_step" where
  "garbled_read n = (data_read n)\<lparr>rd_buffer := (\<lambda>k. of_nat k)\<rparr>"

text \<open>
  A client before its thread starts: the static initialisers of the globals, and zero
  for the locals that have no initialiser. A run in which both channels open at once,
  a dot is typed at the first prompt, and the writer's channel is found drained at the
  third poll.
\<close>

definition idle_client :: client where
  "idle_client =
     \<lparr>status = DSP_SOK, bytesTransfered = 0, attrs0 = 0, acqSize = 0,
      rcvSize = 0, totalRcvbytes = 0, exitFlag = False,
      RingIOWriterHandle = None, RingIOReaderHandle = None,
      semPtrWriter = None, semPtrReader = None,
      Task_Run = True, fReaderStart = False, fReaderEnd = False, calls = []\<rparr>"

definition open_at_once :: init_env where
  "open_at_once =
     \<lparr>open_writer = True, create_sem_writer = (DSP_SOK, Some 1),
      set_notifier_writer = [DSP_SOK], open_reader = [True],
      create_sem_reader = (DSP_SOK, Some 2), set_notifier_reader = [DSP_SOK]\<rparr>"

definition stop_typed :: frame_env where
  "stop_typed =
     \<lparr>typed = CHR ''.'', peer_stopped = True, start_attr_result = DSP_SOK,
      start_notify_results = [], stream_steps = [], end_attr_results = [],
      end_notify_result = DSP_SOK, start_wait_result = DSP_SOK, start_wait_notified = [],
      start_getAttribute = [], read_steps = [], end_wait_result = DSP_SOK,
      end_wait_notified = []\<rparr>"

definition close_after :: "(Uint32 \<times> Uint32) list \<Rightarrow> close_env" where
  "close_after polls =
     \<lparr>dsp_end_results = [DSP_SOK], delete_sem_writer = DSP_SOK, valid_sizes = polls,
      close_writer_result = DSP_SOK, delete_sem_reader = DSP_SOK,
      close_reader_result = DSP_SOK\<rparr>"

definition stop_at_once :: client_env where
  "stop_at_once =
     \<lparr>at_open = open_at_once, frames = [stop_typed],
      at_close = close_after [(512, 0), (0, 8), (0, 0)]\<rparr>"

text \<open>
  A whole frame of the second worker: two chunks of 1024 out, then 2048 bytes and the
  end-of-data attribute back.
\<close>

definition two_chunk_frame :: frame_env where
  "two_chunk_frame =
     \<lparr>typed = CHR ''a'', peer_stopped = False, start_attr_result = DSP_SOK,
      start_notify_results = [DSP_SOK], stream_steps = [granted 1024, granted 1024],
      end_attr_results = [DSP_SOK], end_notify_result = DSP_SOK,
      start_wait_result = DSP_SOK, start_wait_notified = [NOTIFY_DATA_START],
      start_getAttribute = [(DSP_SOK, RINGIO_DATA_START)],
      read_steps = [data_read 2048, data_end_read],
      end_wait_result = DSP_SOK, end_wait_notified = [NOTIFY_DATA_END]\<rparr>"

text \<open>A session in which every call succeeds at once and both workers end.\<close>

definition session_ok :: main_env where
  "session_ok =
     \<lparr>os_init_result = DSP_SOK, proc_setup_result = DSP_SOK, proc_attach_result = DSP_SOK,
      pool_open_result = DSP_SOK, proc_load_result = DSP_SOK, create1_result = DSP_SOK,
      create2_result = DSP_SOK, proc_start_result = DSP_SOK,
      create_client1_result = DSP_SOK, create_client2_result = DSP_SOK,
      join1_returns = True, join2_returns = True,
      delete1_results = [DSP_SOK], delete2_results = [DSP_SOK],
      proc_stop_result = DSP_SOK, pool_close_result = DSP_SOK, proc_detach_result = DSP_SOK,
      proc_destroy_result = DSP_SOK, os_exit_result = DSP_SOK\<rparr>"

text \<open>What \<open>RING_IO_Main\<close> records in such a session, after the call that entered it.\<close>

definition session_ok_calls :: "sizes \<Rightarrow> string \<Rightarrow> sys_call list" where
  "session_ok_calls g exe =
     [RING_IO_OS_init DSP_SOK, PROC_setup DSP_SOK, PROC_attach 0 DSP_SOK,
      POOL_open 0 0 DSP_SOK,
      PROC_load 0 exe [RING_IO_BufferSize1 g, RING_IO_BufferSize3 g, 2048, 0] DSP_SOK,
      RingIO_create 0 RINGIO1 (RING_IO_BufferSize g) DSP_SOK,
      RingIO_create 0 RINGIO3 (RING_IO_BufferSize2 g) DSP_SOK,
      PROC_start 0 DSP_SOK,
      RING_IO_Create_client RING_IO_Writer_Notify1 DSP_SOK,
      RING_IO_Create_client RING_IO_Writer_Notify2 DSP_SOK,
      RING_IO_Join_client RING_IO_Writer_Notify1,
      RING_IO_Join_client RING_IO_Writer_Notify2,
      RingIO_delete 0 RINGIO1 DSP_SOK, RingIO_delete 0 RINGIO3 DSP_SOK,
      PROC_stop 0 DSP_SOK, POOL_close 0 0 DSP_SOK, PROC_detach 0 DSP_SOK,
      PROC_destroy DSP_SOK, RING_IO_OS_exit DSP_SOK]"

section \<open>The fill pattern\<close>

lemma scast_Int16_nonneg: "unat (i::Int16) < 2 ^ 15 \<Longrightarrow> unat (scast i :: Uint32) = unat i"
proof -
  assume a: "unat i < 2 ^ 15"
  then have u: "uint i < 2 ^ 15" by (simp add: unat_eq_nat_uint del: nat_uint_eq)
  have "sint i = signed_take_bit 15 (uint i)" by (simp add: sint_uint)
  also have "\<dots> = uint i"
    using u uint_ge_0 [of i] by (intro signed_take_bit_int_eq_self) linarith+
  finally have "(scast i :: Uint32) = ucast i" by (simp add: scast_eq)
  then show ?thesis
    by (simp add: unsigned_ucast_eq take_bit_nat_eq_self unsigned_less [of i, where 'a=nat]
        less_trans [OF a])
qed

lemma Int16_incr: "(scast (i::Int16) :: Uint32) < sz \<Longrightarrow> unat (i + 1) = Suc (unat i)"
proof -
  assume a: "(scast i :: Uint32) < sz"
  have "i \<noteq> -1"
  proof
    assume "i = -1"
    then have "(scast i :: Uint32) = -1" by simp
    with a show False by simp
  qed
  then have "1 + i \<noteq> 0"
    by (metis add_eq_0_iff)
  then have "unat (1 + i) = Suc (unat i)" by (rule unatSuc)
  then show ?thesis by (simp add: add.commute)
qed

text \<open>
  From counter \<open>i\<close> and offset \<open>p\<close>, with the size within the positive range of the
  counter, the loop writes the pattern to the next \<open>size - i\<close> bytes and nothing else.
\<close>

lemma InitBuffer_loop_fills:
  "unat i \<le> unat sz \<Longrightarrow> unat sz \<le> 32767 \<Longrightarrow>
   InitBuffer_loop i p sz mem =
     (\<lambda>k. if p \<le> k \<and> k < p + (unat sz - unat i) then XFER_VALUE else mem k)"
proof (induction "unat sz - unat i" arbitrary: i p mem)
  case 0
  then have e: "unat i = unat sz" by simp
  then have "unat (scast i :: Uint32) = unat sz" using 0 scast_Int16_nonneg [of i] by simp
  then have "\<not> (scast i :: Uint32) < sz" by (simp add: word_less_nat_alt)
  then show ?case using e by (subst InitBuffer_loop.simps) (auto simp: fun_eq_iff)
next
  case (Suc n)
  then have lt: "unat i < unat sz" by simp
  then have "unat (scast i :: Uint32) = unat i" using Suc scast_Int16_nonneg [of i] by simp
  with lt have c: "(scast i :: Uint32) < sz" by (simp add: word_less_nat_alt)
  have s: "unat (i + 1) = Suc (unat i)" by (rule Int16_incr [OF c])
  have "InitBuffer_loop (i + 1) (p + 1) sz (mem(p := XFER_VALUE)) =
     (\<lambda>k. if p + 1 \<le> k \<and> k < p + 1 + (unat sz - unat (i + 1)) then XFER_VALUE
           else (mem(p := XFER_VALUE)) k)"
    using Suc s lt by (intro Suc.hyps(1)) simp_all
  then show ?case using c s lt
    by (subst InitBuffer_loop.simps) (auto simp: fun_eq_iff)
qed

text \<open>
  C9. For a non-NULL buffer and a size of at most 32767, \<open>RING_IO_InitBuffer\<close> returns
  with each of the first \<open>size\<close> bytes equal to \<open>XFER_VALUE\<close>, which is 5, and the bytes
  from offset \<open>size\<close> on as they were.
\<close>

theorem InitBuffer_fills_pattern:
  "unat sz \<le> 32767 \<Longrightarrow>
   \<exists>mem'. RING_IO_InitBuffer (Some mem) sz = Some mem' \<and>
      (\<forall>k < unat sz. mem' k = XFER_VALUE) \<and> XFER_VALUE = 5 \<and>
      (\<forall>k \<ge> unat sz. mem' k = mem k)"
  by (simp add: RING_IO_InitBuffer_def InitBuffer_loop_fills XFER_VALUE_def)

theorem InitBuffer_fills_pattern_witness:
  "unat (3 :: Uint32) \<le> 32767 \<and>
   (\<exists>mem'. RING_IO_InitBuffer (Some (\<lambda>k. 0)) 3 = Some mem' \<and>
      (\<forall>k < unat (3 :: Uint32). mem' k = XFER_VALUE) \<and> XFER_VALUE = 5 \<and>
      (\<forall>k \<ge> unat (3 :: Uint32). mem' k = 0))"
  using InitBuffer_fills_pattern [of 3 "\<lambda>k. 0"] by simp

section \<open>Projections of the client state\<close>

lemma calls_emit [simp]: "calls (emit c s) = calls s @ [c]"
  by (simp add: emit_def)

lemma emit_fields [simp]:
  "status (emit c s) = status s"
  "bytesTransfered (emit c s) = bytesTransfered s"
  "acqSize (emit c s) = acqSize s"
  "rcvSize (emit c s) = rcvSize s"
  "attrs0 (emit c s) = attrs0 s"
  "totalRcvbytes (emit c s) = totalRcvbytes s"
  "exitFlag (emit c s) = exitFlag s"
  "RingIOWriterHandle (emit c s) = RingIOWriterHandle s"
  "RingIOReaderHandle (emit c s) = RingIOReaderHandle s"
  "semPtrWriter (emit c s) = semPtrWriter s"
  "semPtrReader (emit c s) = semPtrReader s"
  "Task_Run (emit c s) = Task_Run s"
  "fReaderStart (emit c s) = fReaderStart s"
  "fReaderEnd (emit c s) = fReaderEnd s"
  by (simp_all add: emit_def)

lemma Reader_Notify_fields [simp]:
  "status (RING_IO_Reader_Notify m s) = status s"
  "bytesTransfered (RING_IO_Reader_Notify m s) = bytesTransfered s"
  "acqSize (RING_IO_Reader_Notify m s) = acqSize s"
  "rcvSize (RING_IO_Reader_Notify m s) = rcvSize s"
  "attrs0 (RING_IO_Reader_Notify m s) = attrs0 s"
  "totalRcvbytes (RING_IO_Reader_Notify m s) = totalRcvbytes s"
  "exitFlag (RING_IO_Reader_Notify m s) = exitFlag s"
  "RingIOWriterHandle (RING_IO_Reader_Notify m s) = RingIOWriterHandle s"
  "RingIOReaderHandle (RING_IO_Reader_Notify m s) = RingIOReaderHandle s"
  "semPtrWriter (RING_IO_Reader_Notify m s) = semPtrWriter s"
  "semPtrReader (RING_IO_Reader_Notify m s) = semPtrReader s"
  "Task_Run (RING_IO_Reader_Notify m s) = Task_Run s"
  "calls (RING_IO_Reader_Notify m s) = calls s"
  by (simp_all add: RING_IO_Reader_Notify_def)

lemma notified_fields [simp]:
  "status (notified ms s) = status s"
  "bytesTransfered (notified ms s) = bytesTransfered s"
  "acqSize (notified ms s) = acqSize s"
  "rcvSize (notified ms s) = rcvSize s"
  "attrs0 (notified ms s) = attrs0 s"
  "totalRcvbytes (notified ms s) = totalRcvbytes s"
  "exitFlag (notified ms s) = exitFlag s"
  "RingIOWriterHandle (notified ms s) = RingIOWriterHandle s"
  "RingIOReaderHandle (notified ms s) = RingIOReaderHandle s"
  "semPtrWriter (notified ms s) = semPtrWriter s"
  "semPtrReader (notified ms s) = semPtrReader s"
  "Task_Run (notified ms s) = Task_Run s"
  "calls (notified ms s) = calls s"
  unfolding notified_def by (induction ms arbitrary: s; simp)+

section \<open>The streaming loop: overshoot\<close>

lemma overshoot_remainder:
  fixes T bt g :: Uint32
  assumes "bt < T" and "bt + g > T"
  shows "unat (T - bt) < unat g" and "unat (T - bt) = unat T - unat bt"
proof -
  have le: "unat bt < unat T" using assms(1) by (simp add: word_less_nat_alt)
  then show d: "unat (T - bt) = unat T - unat bt"
    by (simp add: unat_sub word_le_nat_alt)
  have s: "unat T < (unat bt + unat g) mod 2 ^ 32"
    using assms(2) by (simp add: word_less_nat_alt unat_word_ariths)
  have tb: "unat T < 2 ^ 32" using unsigned_less [of T, where 'a=nat] by simp
  have gb: "unat g < 2 ^ 32" using unsigned_less [of g, where 'a=nat] by simp
  have bb: "unat bt < 2 ^ 32" using unsigned_less [of bt, where 'a=nat] by simp
  show "unat (T - bt) < unat g"
  proof (cases "unat bt + unat g < 2 ^ 32")
    case True
    then have "(unat bt + unat g) mod 2 ^ 32 = unat bt + unat g" by simp
    with s d le show ?thesis by linarith
  next
    case False
    with tb d le show ?thesis by linarith
  qed
qed

lemma cancelled_bytes_append:
  "cancelled_bytes (cs @ [RingIO_acquire h req st g, InitBuffer_call g',
      RingIO_release h' n st', RingIO_cancel h'' st'']) =
   cancelled_bytes cs +
     (if DSP_SUCCEEDED st'' then
        (if DSP_SUCCEEDED st then unat g else fst (fold ring_account cs (0, 0)))
        - (if DSP_SUCCEEDED st' then unat n else 0)
      else 0)"
  by (cases "fold ring_account cs (0, 0)") (simp add: cancelled_bytes_def)

text \<open>
  C1. In a pass of the streaming loop of either worker, for a frame target
  \<open>T = RING_IO_BytesToTransfer\<close> other than 0 (the pass runs, so \<open>bytesTransfered < T\<close>):
  when the acquire is granted a size \<open>g\<close> with \<open>bytesTransfered + g > T\<close> (the sum the
  code computes, in \<open>Uint32\<close>), the worker calls \<open>RingIO_release\<close> with exactly
  \<open>T - bytesTransfered\<close>, then \<open>RingIO_cancel\<close>, and sets \<open>bytesTransfered\<close> to \<open>T\<close>. The
  released size is less than the grant, and when the library accepts both calls the
  cancel discards the rest of the grant, \<open>g - (T - bytesTransfered)\<close> bytes.
\<close>

theorem overshoot_releases_remainder_and_cancels:
  assumes "RING_IO_BytesToTransfer w \<noteq> 0"
    and "bytesTransfered s < RING_IO_BytesToTransfer w"
    and "DSP_SUCCEEDED (setv_result r)"
    and "DSP_SUCCEEDED (acquire_result r)"
    and "bytesTransfered s + acquire_size r > RING_IO_BytesToTransfer w"
  shows "calls (stream_body w r s) =
           calls s @
           [RingIO_setvAttribute (RingIOWriterHandle s) (RING_IO_BytesToTransfer w) (setv_result r),
            RingIO_acquire (RingIOWriterHandle s) (RING_IO_BytesToTransfer w)
              (acquire_result r) (acquire_size r),
            InitBuffer_call (acquire_size r),
            RingIO_release (RingIOWriterHandle s)
              (RING_IO_BytesToTransfer w - bytesTransfered s) (release_result r),
            RingIO_cancel (RingIOWriterHandle s) (cancel_result r)]
         \<and> bytesTransfered (stream_body w r s) = RING_IO_BytesToTransfer w
         \<and> unat (RING_IO_BytesToTransfer w - bytesTransfered s) < unat (acquire_size r)
         \<and> (DSP_SUCCEEDED (release_result r) \<and> DSP_SUCCEEDED (cancel_result r) \<longrightarrow>
              cancelled_bytes (calls (stream_body w r s)) =
                cancelled_bytes (calls s)
                + (unat (acquire_size r) - unat (RING_IO_BytesToTransfer w - bytesTransfered s)))"
proof -
  let ?T = "RING_IO_BytesToTransfer w"
  have pos: "acquire_size r > 0"
  proof (rule ccontr)
    assume "\<not> acquire_size r > 0"
    then have "acquire_size r = 0" using word_neq_0_conv [of "acquire_size r"] by blast
    with assms(2,5) show False by simp
  qed
  have ne: "bytesTransfered s \<noteq> ?T" using assms(2) by auto
  have c: "calls (stream_body w r s) =
           calls s @
           [RingIO_setvAttribute (RingIOWriterHandle s) ?T (setv_result r),
            RingIO_acquire (RingIOWriterHandle s) ?T (acquire_result r) (acquire_size r),
            InitBuffer_call (acquire_size r),
            RingIO_release (RingIOWriterHandle s) (?T - bytesTransfered s) (release_result r),
            RingIO_cancel (RingIOWriterHandle s) (cancel_result r)]"
    using assms pos ne by (simp add: stream_body_def Let_def DSP_FAILED_def)
  have b: "bytesTransfered (stream_body w r s) = ?T"
    using assms pos ne by (simp add: stream_body_def Let_def DSP_FAILED_def)
  have u: "unat (?T - bytesTransfered s) < unat (acquire_size r)"
    using overshoot_remainder(1) [OF assms(2) assms(5)] .
  have a: "DSP_SUCCEEDED (release_result r) \<and> DSP_SUCCEEDED (cancel_result r) \<longrightarrow>
        cancelled_bytes (calls (stream_body w r s)) =
          cancelled_bytes (calls s) + (unat (acquire_size r) - unat (?T - bytesTransfered s))"
  proof -
    have "calls (stream_body w r s) =
       (calls s @ [RingIO_setvAttribute (RingIOWriterHandle s) ?T (setv_result r)]) @
         [RingIO_acquire (RingIOWriterHandle s) ?T (acquire_result r) (acquire_size r),
          InitBuffer_call (acquire_size r),
          RingIO_release (RingIOWriterHandle s) (?T - bytesTransfered s) (release_result r),
          RingIO_cancel (RingIOWriterHandle s) (cancel_result r)]"
      using c by simp
    then show ?thesis
      using assms(4) by (simp only: cancelled_bytes_append) (simp add: cancelled_bytes_def)
  qed
  from c b u a show ?thesis by blast
qed

text \<open>Frame length 1000, grant 1024: 1000 released, 24 cancelled, 1000 transferred.\<close>

theorem overshoot_releases_remainder_and_cancels_witness:
  "RING_IO_BytesToTransfer scenario_C \<noteq> 0
   \<and> bytesTransfered (opened_client scenario_C) < RING_IO_BytesToTransfer scenario_C
   \<and> DSP_SUCCEEDED (setv_result (granted 1024))
   \<and> DSP_SUCCEEDED (acquire_result (granted 1024))
   \<and> bytesTransfered (opened_client scenario_C) + acquire_size (granted 1024)
        > RING_IO_BytesToTransfer scenario_C
   \<and> calls (stream_body scenario_C (granted 1024) (opened_client scenario_C)) =
        [RingIO_setvAttribute (Some RINGIO1) 1000 DSP_SOK,
         RingIO_acquire (Some RINGIO1) 1000 DSP_SOK 1024,
         InitBuffer_call 1024,
         RingIO_release (Some RINGIO1) 1000 DSP_SOK,
         RingIO_cancel (Some RINGIO1) DSP_SOK]
   \<and> bytesTransfered (stream_body scenario_C (granted 1024) (opened_client scenario_C)) = 1000
   \<and> cancelled_bytes (calls (stream_body scenario_C (granted 1024) (opened_client scenario_C))) = 24"
  using overshoot_releases_remainder_and_cancels
          [of scenario_C "opened_client scenario_C" "granted 1024"]
  by (simp add: scenario_C_def worker1_def opened_client_def granted_def cancelled_bytes_def)

section \<open>The streaming loop: chunks\<close>

lemma new_calls_ext:
  assumes "calls s' = calls s @ ext"
  shows "new_calls s s' = ext"
  using assms by (simp add: new_calls_def)

text \<open>A pass that does not overshoot.\<close>

lemma stream_body_chunk:
  assumes T: "RING_IO_BytesToTransfer w \<noteq> 0"
    and C: "DSP_SUCCEEDED (acquire_result r) \<longrightarrow> acquire_size r = C"
    and fit: "unat (bytesTransfered s) + unat C \<le> unat (RING_IO_BytesToTransfer w)"
    and pos: "0 < unat C"
  shows "bytesTransfered (stream_body w r s) =
           (if completes_cycle r then bytesTransfered s + C else bytesTransfered s)"
    and "\<exists>ext. calls (stream_body w r s) = calls s @ ext
           \<and> length (filter accepted_release ext) = (if completes_cycle r then 1 else 0)
           \<and> length (filter is_release ext) =
               (if DSP_SUCCEEDED (setv_result r) \<and> DSP_SUCCEEDED (acquire_result r) then 1 else 0)
           \<and> length (filter granted_acquire ext) =
               (if DSP_SUCCEEDED (setv_result r) \<and> DSP_SUCCEEDED (acquire_result r) then 1 else 0)"
proof -
  let ?T = "RING_IO_BytesToTransfer w"
  have Cpos: "0 < C" using pos by (simp add: word_less_nat_alt)
  have "unat (bytesTransfered s + C) = unat (bytesTransfered s) + unat C"
    using fit unsigned_less [of ?T, where 'a=nat] by (simp add: unat_word_ariths)
  with fit have no: "\<not> bytesTransfered s + C > ?T"
    by (simp add: word_less_nat_alt)
  show "bytesTransfered (stream_body w r s) =
           (if completes_cycle r then bytesTransfered s + C else bytesTransfered s)"
    using T C no Cpos
    by (auto simp: stream_body_def Let_def DSP_FAILED_def completes_cycle_def)
  show "\<exists>ext. calls (stream_body w r s) = calls s @ ext
           \<and> length (filter accepted_release ext) = (if completes_cycle r then 1 else 0)
           \<and> length (filter is_release ext) =
               (if DSP_SUCCEEDED (setv_result r) \<and> DSP_SUCCEEDED (acquire_result r) then 1 else 0)
           \<and> length (filter granted_acquire ext) =
               (if DSP_SUCCEEDED (setv_result r) \<and> DSP_SUCCEEDED (acquire_result r) then 1 else 0)"
    using T C no Cpos
    by (auto simp: stream_body_def Let_def DSP_FAILED_def completes_cycle_def)
qed


lemma writer_stream_chunks:
  assumes T: "RING_IO_BytesToTransfer w \<noteq> 0"
    and pos: "0 < unat C"
    and n: "unat (RING_IO_BytesToTransfer w) = n * unat C"
    and C: "\<forall>r\<in>set rs. DSP_SUCCEEDED (acquire_result r) \<longrightarrow> acquire_size r = C"
    and k: "unat (bytesTransfered s) = k * unat C" "k \<le> n"
  shows "\<exists>ext. calls (state_of (writer_stream w rs s)) = calls s @ ext \<and>
           (returned (writer_stream w rs s) \<longleftrightarrow> n - k \<le> length (filter completes_cycle rs)) \<and>
           (returned (writer_stream w rs s) \<longrightarrow>
               bytesTransfered (state_of (writer_stream w rs s)) = RING_IO_BytesToTransfer w
             \<and> length (filter accepted_release ext) = n - k
             \<and> ((\<forall>r\<in>set rs. DSP_SUCCEEDED (release_result r)) \<longrightarrow>
                   length (filter is_release ext) = n - k
                 \<and> length (filter granted_acquire ext) = n - k))"
  using C k
proof (induction rs arbitrary: s k)
  case Nil
  let ?T = "RING_IO_BytesToTransfer w"
  show ?case
  proof (cases "k < n")
    case True
    then have "unat (bytesTransfered s) < unat ?T" using Nil.prems n pos by simp
    then have "bytesTransfered s < ?T" by (simp add: word_less_nat_alt)
    then show ?thesis using True by simp
  next
    case False
    then have kn: "k = n" using Nil.prems by simp
    then have "unat (bytesTransfered s) = unat ?T" using Nil.prems n by simp
    then have "bytesTransfered s = ?T" by (simp add: word_unat_eq_iff)
    then show ?thesis using T kn by simp
  qed
next
  case (Cons r rs)
  let ?T = "RING_IO_BytesToTransfer w"
  show ?case
  proof (cases "k < n")
    case False
    then have kn: "k = n" using Cons.prems by simp
    then have "unat (bytesTransfered s) = unat ?T" using Cons.prems n by simp
    then have "bytesTransfered s = ?T" by (simp add: word_unat_eq_iff)
    then show ?thesis using T kn by simp
  next
    case True
    then have "unat (bytesTransfered s) < unat ?T" using Cons.prems n pos by simp
    then have lt: "bytesTransfered s < ?T" by (simp add: word_less_nat_alt)
    have "Suc k * unat C \<le> n * unat C" using True by (intro mult_le_mono1) simp
    then have fit: "unat (bytesTransfered s) + unat C \<le> unat ?T"
      using Cons.prems n by simp
    have Cr: "DSP_SUCCEEDED (acquire_result r) \<longrightarrow> acquire_size r = C"
      using Cons.prems by simp
    let ?s1 = "stream_body w r s"
    let ?k1 = "if completes_cycle r then Suc k else k"
    have b1: "bytesTransfered ?s1 =
        (if completes_cycle r then bytesTransfered s + C else bytesTransfered s)"
      by (rule stream_body_chunk(1) [OF T Cr fit pos])
    obtain ext1 where e1: "calls ?s1 = calls s @ ext1"
      and a1: "length (filter accepted_release ext1) = (if completes_cycle r then 1 else 0)"
      and r1: "length (filter is_release ext1) =
               (if DSP_SUCCEEDED (setv_result r) \<and> DSP_SUCCEEDED (acquire_result r) then 1 else 0)"
      and g1: "length (filter granted_acquire ext1) =
               (if DSP_SUCCEEDED (setv_result r) \<and> DSP_SUCCEEDED (acquire_result r) then 1 else 0)"
      using stream_body_chunk(2) [OF T Cr fit pos] by blast
    have "unat (bytesTransfered s + C) = unat (bytesTransfered s) + unat C"
      using fit unsigned_less [of ?T, where 'a=nat] by (simp add: unat_word_ariths)
    then have u1: "unat (bytesTransfered ?s1) = ?k1 * unat C"
      using b1 Cons.prems by simp
    have k1: "?k1 \<le> n" using True by simp
    have C1: "\<forall>r\<in>set rs. DSP_SUCCEEDED (acquire_result r) \<longrightarrow> acquire_size r = C"
      using Cons.prems by simp
    obtain ext2 where e2: "calls (state_of (writer_stream w rs ?s1)) = calls ?s1 @ ext2"
      and ret: "returned (writer_stream w rs ?s1) \<longleftrightarrow> n - ?k1 \<le> length (filter completes_cycle rs)"
      and fin: "returned (writer_stream w rs ?s1) \<longrightarrow>
               bytesTransfered (state_of (writer_stream w rs ?s1)) = ?T
             \<and> length (filter accepted_release ext2) = n - ?k1
             \<and> ((\<forall>r\<in>set rs. DSP_SUCCEEDED (release_result r)) \<longrightarrow>
                   length (filter is_release ext2) = n - ?k1
                 \<and> length (filter granted_acquire ext2) = n - ?k1)"
      using Cons.IH [OF C1 u1 k1] by blast
    have step: "writer_stream w (r # rs) s = writer_stream w rs ?s1"
      using lt by simp
    have cc: "DSP_SUCCEEDED (release_result r) \<Longrightarrow>
        (DSP_SUCCEEDED (setv_result r) \<and> DSP_SUCCEEDED (acquire_result r)) = completes_cycle r"
      using Cr pos by (auto simp: completes_cycle_def word_less_nat_alt)
    have "calls (state_of (writer_stream w (r # rs) s)) = calls s @ (ext1 @ ext2)"
      using step e1 e2 by simp
    moreover have "returned (writer_stream w (r # rs) s) \<longleftrightarrow>
        n - k \<le> length (filter completes_cycle (r # rs))"
      using step ret True by auto
    moreover have "returned (writer_stream w (r # rs) s) \<longrightarrow>
               bytesTransfered (state_of (writer_stream w (r # rs) s)) = ?T
             \<and> length (filter accepted_release (ext1 @ ext2)) = n - k
             \<and> ((\<forall>r\<in>set (r # rs). DSP_SUCCEEDED (release_result r)) \<longrightarrow>
                   length (filter is_release (ext1 @ ext2)) = n - k
                 \<and> length (filter granted_acquire (ext1 @ ext2)) = n - k)"
      using step fin a1 r1 g1 cc True by auto
    ultimately show ?thesis by blast
  qed
qed

lemma writer_stream_unbounded:
  "RING_IO_BytesToTransfer w = 0 \<Longrightarrow> \<not> returned (writer_stream w rs s)"
  by (induction rs arbitrary: s) simp_all


text \<open>
  C2. For a frame target \<open>N = RING_IO_BytesToTransfer\<close> other than 0 and a chunk size \<open>C\<close>
  that divides it: if every successful acquire of the run grants exactly \<open>C\<close> bytes, the
  streaming loop, started with \<open>bytesTransfered = 0\<close>, exits exactly when the environment
  has let \<open>N / C\<close> acquire/release cycles complete, and it exits with
  \<open>bytesTransfered = N\<close> after exactly \<open>N / C\<close> accepted releases; when no release is
  rejected these are all its releases and all its granted acquires. For a target of 0
  the loop does not exit, whatever the environment answers and however long it runs.
\<close>

theorem chunked_frame_cycles:
  "(RING_IO_BytesToTransfer w = 0 \<longrightarrow> \<not> returned (writer_stream w rs s))
   \<and> (RING_IO_BytesToTransfer w \<noteq> 0 \<and> unat C dvd unat (RING_IO_BytesToTransfer w)
        \<and> bytesTransfered s = 0
        \<and> (\<forall>r\<in>set rs. DSP_SUCCEEDED (acquire_result r) \<longrightarrow> acquire_size r = C) \<longrightarrow>
       (returned (writer_stream w rs s) \<longleftrightarrow>
          unat (RING_IO_BytesToTransfer w) div unat C \<le> length (filter completes_cycle rs))
       \<and> (returned (writer_stream w rs s) \<longrightarrow>
            bytesTransfered (state_of (writer_stream w rs s)) = RING_IO_BytesToTransfer w
          \<and> length (filter accepted_release (new_calls s (state_of (writer_stream w rs s))))
              = unat (RING_IO_BytesToTransfer w) div unat C
          \<and> ((\<forall>r\<in>set rs. DSP_SUCCEEDED (release_result r)) \<longrightarrow>
                length (filter is_release (new_calls s (state_of (writer_stream w rs s))))
                  = unat (RING_IO_BytesToTransfer w) div unat C
              \<and> length (filter granted_acquire (new_calls s (state_of (writer_stream w rs s))))
                  = unat (RING_IO_BytesToTransfer w) div unat C)))"
proof (rule conjI)
  show "RING_IO_BytesToTransfer w = 0 \<longrightarrow> \<not> returned (writer_stream w rs s)"
    using writer_stream_unbounded by blast
next
  let ?T = "RING_IO_BytesToTransfer w"
  let ?n = "unat ?T div unat C"
  let ?s' = "state_of (writer_stream w rs s)"
  have "(returned (writer_stream w rs s) \<longleftrightarrow> ?n \<le> length (filter completes_cycle rs))
       \<and> (returned (writer_stream w rs s) \<longrightarrow>
            bytesTransfered ?s' = ?T
          \<and> length (filter accepted_release (new_calls s ?s')) = ?n
          \<and> ((\<forall>r\<in>set rs. DSP_SUCCEEDED (release_result r)) \<longrightarrow>
                length (filter is_release (new_calls s ?s')) = ?n
              \<and> length (filter granted_acquire (new_calls s ?s')) = ?n))"
    if a: "?T \<noteq> 0 \<and> unat C dvd unat ?T \<and> bytesTransfered s = 0
        \<and> (\<forall>r\<in>set rs. DSP_SUCCEEDED (acquire_result r) \<longrightarrow> acquire_size r = C)"
  proof -
    from a have T: "?T \<noteq> 0" and d: "unat C dvd unat ?T" and z: "bytesTransfered s = 0"
      and C: "\<forall>r\<in>set rs. DSP_SUCCEEDED (acquire_result r) \<longrightarrow> acquire_size r = C"
      by simp_all
    have "unat ?T \<noteq> 0" using T by (simp add: unat_eq_0)
    with d have pos: "0 < unat C" by (cases "unat C = 0") simp_all
    have n: "unat ?T = ?n * unat C" using d by simp
    have k: "unat (bytesTransfered s) = 0 * unat C" using z by simp
    obtain ext where e: "calls ?s' = calls s @ ext"
      and ret: "returned (writer_stream w rs s) \<longleftrightarrow> ?n - 0 \<le> length (filter completes_cycle rs)"
      and fin: "returned (writer_stream w rs s) \<longrightarrow>
                 bytesTransfered ?s' = ?T
               \<and> length (filter accepted_release ext) = ?n - 0
               \<and> ((\<forall>r\<in>set rs. DSP_SUCCEEDED (release_result r)) \<longrightarrow>
                     length (filter is_release ext) = ?n - 0
                   \<and> length (filter granted_acquire ext) = ?n - 0)"
      using writer_stream_chunks [OF T pos n C k] by blast
    have nc: "new_calls s ?s' = ext"
      using e by (rule new_calls_ext)
    show ?thesis using ret fin nc by simp
  qed
  then show "?T \<noteq> 0 \<and> unat C dvd unat ?T \<and> bytesTransfered s = 0
        \<and> (\<forall>r\<in>set rs. DSP_SUCCEEDED (acquire_result r) \<longrightarrow> acquire_size r = C) \<longrightarrow>
       (returned (writer_stream w rs s) \<longleftrightarrow> ?n \<le> length (filter completes_cycle rs))
       \<and> (returned (writer_stream w rs s) \<longrightarrow>
            bytesTransfered ?s' = ?T
          \<and> length (filter accepted_release (new_calls s ?s')) = ?n
          \<and> ((\<forall>r\<in>set rs. DSP_SUCCEEDED (release_result r)) \<longrightarrow>
                length (filter is_release (new_calls s ?s')) = ?n
              \<and> length (filter granted_acquire (new_calls s ?s')) = ?n))"
    by blast
qed

text \<open>
  Two chunks of 1024 for the second worker's frame of 2048, with one refused acquire in
  between; and a frame target of 0, which the same answers do not end.
\<close>

theorem chunked_frame_cycles_witness:
  "(RING_IO_BytesToTransfer unbounded_worker = 0
      \<and> \<not> returned (writer_stream unbounded_worker [granted 1024, buffer_full, granted 1024]
                       (opened_client unbounded_worker)))
   \<and> (RING_IO_BytesToTransfer (worker2 aligned_sizes) \<noteq> 0
      \<and> unat (1024 :: Uint32) dvd unat (RING_IO_BytesToTransfer (worker2 aligned_sizes))
      \<and> bytesTransfered (opened_client (worker2 aligned_sizes)) = 0
      \<and> map acquire_size (filter (\<lambda>r. DSP_SUCCEEDED (acquire_result r))
            [granted 1024, buffer_full, granted 1024]) = [1024, 1024]
      \<and> returned (writer_stream (worker2 aligned_sizes) [granted 1024, buffer_full, granted 1024]
                    (opened_client (worker2 aligned_sizes)))
      \<and> bytesTransfered (state_of (writer_stream (worker2 aligned_sizes)
            [granted 1024, buffer_full, granted 1024] (opened_client (worker2 aligned_sizes)))) = 2048
      \<and> length (filter accepted_release (new_calls (opened_client (worker2 aligned_sizes))
            (state_of (writer_stream (worker2 aligned_sizes)
               [granted 1024, buffer_full, granted 1024] (opened_client (worker2 aligned_sizes)))))) = 2)"
proof -
  have d: "unat (1024 :: Uint32) dvd unat (RING_IO_BytesToTransfer (worker2 aligned_sizes))"
    by (simp add: worker2_def aligned_sizes_def RING_IO_Create_sizes_def)
  have c: "length (filter completes_cycle [granted 1024, buffer_full, granted 1024]) = 2"
    by (simp add: completes_cycle_def granted_def buffer_full_def)
  have q: "unat (RING_IO_BytesToTransfer (worker2 aligned_sizes)) div unat (1024 :: Uint32) = 2"
    by (simp add: worker2_def aligned_sizes_def RING_IO_Create_sizes_def)
  show ?thesis
    using chunked_frame_cycles [of unbounded_worker "[granted 1024, buffer_full, granted 1024]"
            "opened_client unbounded_worker" 1024]
          chunked_frame_cycles [of "worker2 aligned_sizes" "[granted 1024, buffer_full, granted 1024]"
            "opened_client (worker2 aligned_sizes)" 1024]
          d c q
    by (simp add: unbounded_worker_def worker1_def worker2_def aligned_sizes_def
          RING_IO_Create_sizes_def opened_client_def granted_def buffer_full_def)
qed

section \<open>The reader's loop\<close>

lemma acquire_requests_append [simp]:
  "acquire_requests (xs @ ys) = acquire_requests xs @ acquire_requests ys"
  by (simp add: acquire_requests_def)

lemma acquire_requests_simps [simp]:
  "acquire_requests [] = []"
  "acquire_requests (c # cs) = request_of c @ acquire_requests cs"
  by (simp_all add: acquire_requests_def)

lemma VerifyData_status: "fst (RING_IO_Reader_VerifyData buffer sz) = DSP_SOK"
  by (simp add: RING_IO_Reader_VerifyData_def)

lemma read_body_calls:
  "\<exists>ext. calls (read_body w r s) = calls s @ ext \<and> acquire_requests ext = [acqSize s]"
  by (auto simp: read_body_def read_data_def read_attribute_def Let_def VerifyData_status
      split: option.splits)

lemma read_body_acqSize:
  "reader_BufferSize w \<noteq> 0 \<Longrightarrow> acqSize (read_body w r s) \<noteq> 0"
  by (simp add: read_body_def Let_def)

lemma read_loop_requests:
  assumes "reader_BufferSize w \<noteq> 0" and "acqSize s \<noteq> 0"
  shows "\<exists>ext. calls (state_of (read_loop w rs s)) = calls s @ ext
           \<and> 0 \<notin> set (acquire_requests ext)"
  using assms(2)
proof (induction rs arbitrary: s)
  case Nil
  then show ?case by simp
next
  case (Cons r rs)
  show ?case
  proof (cases "exitFlag s")
    case True
    then show ?thesis by simp
  next
    case False
    obtain e1 where e1: "calls (read_body w r s) = calls s @ e1"
      and q1: "acquire_requests e1 = [acqSize s]"
      using read_body_calls by blast
    obtain e2 where e2: "calls (state_of (read_loop w rs (read_body w r s))) =
        calls (read_body w r s) @ e2" and q2: "0 \<notin> set (acquire_requests e2)"
      using Cons.IH [OF read_body_acqSize [OF assms(1)]] by blast
    have "calls (state_of (read_loop w (r # rs) s)) = calls s @ (e1 @ e2)"
      using False e1 e2 by simp
    moreover have "0 \<notin> set (acquire_requests (e1 @ e2))"
      using q1 q2 Cons.prems by simp
    ultimately show ?thesis by blast
  qed
qed

text \<open>
  C5. With a nonzero default buffer size for the channel (\<open>RING_IO_BufferSize1\<close> or
  \<open>RING_IO_BufferSize3\<close>, which \<open>RING_IO_Create\<close> sets to 4096 and 2048 rounded up), every
  \<open>RingIO_acquire\<close> the reader's loop makes, in a run of any length against any
  environment, asks for a size greater than 0. Every pass leaves \<open>acqSize\<close> greater than
  0: at the default size, to which the last statement of the pass resets a zero, or at
  the size still expected. The loops of \<open>RING_IO_ReaderClient1\<close> and
  \<open>RING_IO_ReaderClient2\<close> are the same statements with one more print.
\<close>

theorem reader_acquire_size_positive:
  "reader_BufferSize w \<noteq> 0 \<Longrightarrow>
     (\<forall>req \<in> set (acquire_requests (new_calls s (state_of (READ_LOOP w rs s)))). 0 < req)
     \<and> 0 < acqSize (read_body w r s')
     \<and> (acqSize (read_body w r s') = reader_BufferSize w \<or>
          acqSize (read_body w r s') = rcvSize (read_body w r s'))"
proof -
  assume b: "reader_BufferSize w \<noteq> 0"
  obtain ext where e: "calls (state_of (read_loop w rs (s\<lparr>acqSize := reader_BufferSize w\<rparr>))) =
      calls (s\<lparr>acqSize := reader_BufferSize w\<rparr>) @ ext"
    and z: "0 \<notin> set (acquire_requests ext)"
    using read_loop_requests [OF b, of "s\<lparr>acqSize := reader_BufferSize w\<rparr>" rs] b by auto
  have "new_calls s (state_of (READ_LOOP w rs s)) = ext"
    using e by (simp add: READ_LOOP_def new_calls_def)
  then have 1: "\<forall>req \<in> set (acquire_requests (new_calls s (state_of (READ_LOOP w rs s)))). 0 < req"
    using z by (metis word_neq_0_conv)
  have 2: "0 < acqSize (read_body w r s')"
    using read_body_acqSize [OF b] by (simp add: word_neq_0_conv)
  have 3: "acqSize (read_body w r s') = reader_BufferSize w \<or>
          acqSize (read_body w r s') = rcvSize (read_body w r s')"
    by (auto simp: read_body_def read_data_def read_attribute_def Let_def VerifyData_status
      word_gt_0 split: option.splits)
  from 1 2 3 show ?thesis by blast
qed

theorem reader_acquire_size_positive_witness:
  "reader_BufferSize (worker1 aligned_sizes) \<noteq> 0
   \<and> acquire_requests (new_calls (opened_client (worker1 aligned_sizes))
         (state_of (READ_LOOP (worker1 aligned_sizes) [buffer_empty, data_read 1024, data_end_read]
            (opened_client (worker1 aligned_sizes))))) = [4096, 4096, 3072]
   \<and> acqSize (read_body (worker1 aligned_sizes) buffer_empty (opened_client (worker1 aligned_sizes)))
       = 4096"
  using reader_acquire_size_positive [of "worker1 aligned_sizes" "opened_client (worker1 aligned_sizes)"
          "[buffer_empty, data_read 1024, data_end_read]" buffer_empty
          "opened_client (worker1 aligned_sizes)"]
  by (simp add: worker1_def aligned_sizes_def RING_IO_Create_sizes_def opened_client_def
        buffer_empty_def data_read_def data_end_read_def READ_LOOP_def read_body_def
        read_data_def read_attribute_def new_calls_def VerifyData_status Let_def
        RINGIO_DATA_END_def)

section \<open>Sequencing, and what no part of a frame does\<close>

lemma cod_append_quiet [simp]:
  "\<forall>c\<in>set ext. \<forall>h' st. c \<noteq> RingIO_close h' st \<Longrightarrow>
   closes_only_when_drained h (cs @ ext) = closes_only_when_drained h cs"
proof (induction ext rule: rev_induct)
  case Nil
  then show ?case by simp
next
  case (snoc x xs)
  then have "closes_only_when_drained h (cs @ xs) = closes_only_when_drained h cs" by simp
  moreover have "closes_only_when_drained h (cs @ xs @ [x]) = closes_only_when_drained h (cs @ xs)"
    using snoc.prems by (cases x) (simp_all add: closes_only_when_drained_def)
  ultimately show ?case by simp
qed

lemma cod_append_close_other [simp]:
  "h' \<noteq> h \<Longrightarrow>
   closes_only_when_drained h (cs @ [RingIO_close h' st]) = closes_only_when_drained h cs"
  by (simp add: closes_only_when_drained_def)

lemma cod_append_close_drained [simp]:
  "closes_only_when_drained h
     (cs @ [RingIO_getValidSize h' 0, RingIO_getValidAttrSize h' 0, RingIO_close h' st]) =
   closes_only_when_drained h cs"
  by (simp add: closes_only_when_drained_def)

lemma Task_Run_outward [simp]:
  "(s\<lparr>Task_Run := b\<rparr>)\<lparr>status := x1\<rparr> = (s\<lparr>status := x1\<rparr>)\<lparr>Task_Run := b\<rparr>"
  "(s\<lparr>Task_Run := b\<rparr>)\<lparr>bytesTransfered := x2\<rparr> = (s\<lparr>bytesTransfered := x2\<rparr>)\<lparr>Task_Run := b\<rparr>"
  "(s\<lparr>Task_Run := b\<rparr>)\<lparr>attrs0 := x3\<rparr> = (s\<lparr>attrs0 := x3\<rparr>)\<lparr>Task_Run := b\<rparr>"
  "(s\<lparr>Task_Run := b\<rparr>)\<lparr>acqSize := x4\<rparr> = (s\<lparr>acqSize := x4\<rparr>)\<lparr>Task_Run := b\<rparr>"
  "(s\<lparr>Task_Run := b\<rparr>)\<lparr>rcvSize := x5\<rparr> = (s\<lparr>rcvSize := x5\<rparr>)\<lparr>Task_Run := b\<rparr>"
  "(s\<lparr>Task_Run := b\<rparr>)\<lparr>totalRcvbytes := x6\<rparr> = (s\<lparr>totalRcvbytes := x6\<rparr>)\<lparr>Task_Run := b\<rparr>"
  "(s\<lparr>Task_Run := b\<rparr>)\<lparr>exitFlag := x7\<rparr> = (s\<lparr>exitFlag := x7\<rparr>)\<lparr>Task_Run := b\<rparr>"
  "(s\<lparr>Task_Run := b\<rparr>)\<lparr>fReaderStart := x8\<rparr> = (s\<lparr>fReaderStart := x8\<rparr>)\<lparr>Task_Run := b\<rparr>"
  "(s\<lparr>Task_Run := b\<rparr>)\<lparr>fReaderEnd := x9\<rparr> = (s\<lparr>fReaderEnd := x9\<rparr>)\<lparr>Task_Run := b\<rparr>"
  by simp_all

lemma emit_Task_Run [simp]: "emit c (s\<lparr>Task_Run := b\<rparr>) = (emit c s)\<lparr>Task_Run := b\<rparr>"
  by (simp add: emit_def)

lemma Reader_Notify_Task_Run [simp]:
  "RING_IO_Reader_Notify m (s\<lparr>Task_Run := b\<rparr>) = (RING_IO_Reader_Notify m s)\<lparr>Task_Run := b\<rparr>"
  by (simp add: RING_IO_Reader_Notify_def)

lemma notified_Task_Run [simp]:
  "notified ms (s\<lparr>Task_Run := b\<rparr>) = (notified ms s)\<lparr>Task_Run := b\<rparr>"
  unfolding notified_def by (induction ms arbitrary: s) simp_all

lemma cod_notified [simp]:
  "closes_only_when_drained h (calls (notified ms s)) = closes_only_when_drained h (calls s)"
  by simp

lemma stream_body_quiet [simp]:
  "RingIOReaderHandle (stream_body w r s) = RingIOReaderHandle s"
  "closes_only_when_drained h (calls (stream_body w r s)) = closes_only_when_drained h (calls s)"
  by (simp_all add: stream_body_def Let_def)

lemma stream_body_Task_Run [simp]:
  "stream_body w r (s\<lparr>Task_Run := b\<rparr>) = (stream_body w r s)\<lparr>Task_Run := b\<rparr>"
  by (simp add: stream_body_def Let_def)

lemma writer_stream_quiet [simp]:
  "RingIOReaderHandle (state_of (writer_stream w rs s)) = RingIOReaderHandle s"
  "closes_only_when_drained h (calls (state_of (writer_stream w rs s))) =
     closes_only_when_drained h (calls s)"
  by (induction rs arbitrary: s; simp)+

lemma writer_stream_Task_Run [simp]:
  "writer_stream w rs (s\<lparr>Task_Run := b\<rparr>) =
     map_outcome (\<lambda>t. t\<lparr>Task_Run := b\<rparr>) (writer_stream w rs s)"
  by (induction rs arbitrary: s) simp_all


lemma read_data_quiet [simp]:
  "RingIOReaderHandle (read_data w r s) = RingIOReaderHandle s"
  "closes_only_when_drained h (calls (read_data w r s)) = closes_only_when_drained h (calls s)"
  by (simp_all add: read_data_def Let_def VerifyData_status)

lemma read_data_Task_Run [simp]:
  "read_data w r (s\<lparr>Task_Run := b\<rparr>) = (read_data w r s)\<lparr>Task_Run := b\<rparr>"
  by (simp add: read_data_def Let_def VerifyData_status)

lemma read_attribute_quiet [simp]:
  "RingIOReaderHandle (read_attribute w r s) = RingIOReaderHandle s"
  "closes_only_when_drained h (calls (read_attribute w r s)) = closes_only_when_drained h (calls s)"
  by (simp_all add: read_attribute_def Let_def split: option.splits)

lemma read_attribute_Task_Run [simp]:
  "read_attribute w r (s\<lparr>Task_Run := b\<rparr>) = (read_attribute w r s)\<lparr>Task_Run := b\<rparr>"
  by (simp add: read_attribute_def Let_def split: option.splits)

lemma read_body_quiet [simp]:
  "RingIOReaderHandle (read_body w r s) = RingIOReaderHandle s"
  "closes_only_when_drained h (calls (read_body w r s)) = closes_only_when_drained h (calls s)"
  by (simp_all add: read_body_def Let_def)

lemma read_body_Task_Run [simp]:
  "read_body w r (s\<lparr>Task_Run := b\<rparr>) = (read_body w r s)\<lparr>Task_Run := b\<rparr>"
  by (simp add: read_body_def Let_def)

lemma read_loop_quiet [simp]:
  "RingIOReaderHandle (state_of (read_loop w rs s)) = RingIOReaderHandle s"
  "closes_only_when_drained h (calls (state_of (read_loop w rs s))) =
     closes_only_when_drained h (calls s)"
  by (induction rs arbitrary: s; simp)+

lemma read_loop_Task_Run [simp]:
  "read_loop w rs (s\<lparr>Task_Run := b\<rparr>) =
     map_outcome (\<lambda>t. t\<lparr>Task_Run := b\<rparr>) (read_loop w rs s)"
  by (induction rs arbitrary: s) simp_all

lemma READ_LOOP_quiet [simp]:
  "RingIOReaderHandle (state_of (READ_LOOP w rs s)) = RingIOReaderHandle s"
  "closes_only_when_drained h (calls (state_of (READ_LOOP w rs s))) =
     closes_only_when_drained h (calls s)"
  by (simp_all add: READ_LOOP_def)

lemma READ_LOOP_Task_Run [simp]:
  "READ_LOOP w rs (s\<lparr>Task_Run := b\<rparr>) =
     map_outcome (\<lambda>t. t\<lparr>Task_Run := b\<rparr>) (READ_LOOP w rs s)"
proof -
  have "s\<lparr>Task_Run := b, acqSize := reader_BufferSize w\<rparr> =
        s\<lparr>acqSize := reader_BufferSize w\<rparr>\<lparr>Task_Run := b\<rparr>" by simp
  then show ?thesis by (simp only: READ_LOOP_def read_loop_Task_Run)
qed

lemma send_data_start_quiet [simp]:
  "RingIOReaderHandle (send_data_start e s) = RingIOReaderHandle s"
  "closes_only_when_drained h (calls (send_data_start e s)) = closes_only_when_drained h (calls s)"
  by (simp_all add: send_data_start_def)

lemma send_data_start_Task_Run [simp]:
  "send_data_start e (s\<lparr>Task_Run := b\<rparr>) = (send_data_start e s)\<lparr>Task_Run := b\<rparr>"
  by (simp add: send_data_start_def)

lemma notify_data_start_quiet [simp]:
  "RingIOReaderHandle (state_of (notify_data_start sts s)) = RingIOReaderHandle s"
  "closes_only_when_drained h (calls (state_of (notify_data_start sts s))) =
     closes_only_when_drained h (calls s)"
  by (induction sts arbitrary: s; simp add: Let_def)+

lemma notify_data_start_Task_Run [simp]:
  "notify_data_start sts (s\<lparr>Task_Run := b\<rparr>) =
     map_outcome (\<lambda>t. t\<lparr>Task_Run := b\<rparr>) (notify_data_start sts s)"
  by (induction sts arbitrary: s) (simp_all add: Let_def)

lemma send_data_end_quiet [simp]:
  "RingIOReaderHandle (state_of (send_data_end sts s)) = RingIOReaderHandle s"
  "closes_only_when_drained h (calls (state_of (send_data_end sts s))) =
     closes_only_when_drained h (calls s)"
  by (induction sts arbitrary: s; simp add: Let_def)+

lemma send_data_end_Task_Run [simp]:
  "send_data_end sts (s\<lparr>Task_Run := b\<rparr>) =
     map_outcome (\<lambda>t. t\<lparr>Task_Run := b\<rparr>) (send_data_end sts s)"
  by (induction sts arbitrary: s) (simp_all add: Let_def)

lemma notify_data_end_quiet [simp]:
  "RingIOReaderHandle (notify_data_end e s) = RingIOReaderHandle s"
  "closes_only_when_drained h (calls (notify_data_end e s)) = closes_only_when_drained h (calls s)"
  by (simp_all add: notify_data_end_def Let_def)

lemma notify_data_end_Task_Run [simp]:
  "notify_data_end e (s\<lparr>Task_Run := b\<rparr>) = (notify_data_end e s)\<lparr>Task_Run := b\<rparr>"
  by (simp add: notify_data_end_def Let_def)

lemma get_data_start_quiet [simp]:
  "RingIOReaderHandle (state_of (get_data_start rs s)) = RingIOReaderHandle s"
  "closes_only_when_drained h (calls (state_of (get_data_start rs s))) =
     closes_only_when_drained h (calls s)"
  by (induction rs s rule: get_data_start.induct; simp add: Let_def)+

lemma get_data_start_Task_Run [simp]:
  "get_data_start rs (s\<lparr>Task_Run := b\<rparr>) =
     map_outcome (\<lambda>t. t\<lparr>Task_Run := b\<rparr>) (get_data_start rs s)"
  by (induction rs s rule: get_data_start.induct) (simp_all add: Let_def)

lemma end_reader_task_quiet [simp]:
  "RingIOReaderHandle (end_reader_task w e s) = RingIOReaderHandle s"
  "closes_only_when_drained h (calls (end_reader_task w e s)) = closes_only_when_drained h (calls s)"
  by (simp_all add: end_reader_task_def Let_def)

lemma end_reader_task_Task_Run [simp]:
  "end_reader_task w e (s\<lparr>Task_Run := b\<rparr>) = (end_reader_task w e s)\<lparr>Task_Run := b\<rparr>"
  by (simp add: end_reader_task_def Let_def)


lemma and_then_Task_Run:
  assumes "x' = map_outcome u x" and "\<And>t. f (u t) = map_outcome u (f t)"
  shows "and_then x' f = map_outcome u (and_then x f)"
  using assms by (cases x) simp_all

lemma and_then_ReaderHandle:
  assumes "RingIOReaderHandle (state_of x) = v"
    and "\<And>t. RingIOReaderHandle t = v \<Longrightarrow> RingIOReaderHandle (state_of (f t)) = v"
  shows "RingIOReaderHandle (state_of (and_then x f)) = v"
  using assms by (cases x) simp_all

lemma and_then_closes:
  assumes "closes_only_when_drained h (calls (state_of x))"
    and "\<And>t. closes_only_when_drained h (calls t) \<Longrightarrow>
           closes_only_when_drained h (calls (state_of (f t)))"
  shows "closes_only_when_drained h (calls (state_of (and_then x f)))"
  using assms by (cases x) simp_all


lemma write_task_Task_Run [simp]:
  "write_task w e (s\<lparr>Task_Run := b\<rparr>) =
     map_outcome (\<lambda>t. t\<lparr>Task_Run := b\<rparr>) (write_task w e s)"
  unfolding write_task_def Let_def
  apply (rule and_then_Task_Run)
   apply simp
  apply simp
  apply (intro impI and_then_Task_Run)
    apply simp_all
  done

lemma write_task_ReaderHandle [simp]:
  "RingIOReaderHandle (state_of (write_task w e s)) = RingIOReaderHandle s"
  unfolding write_task_def Let_def
  apply (rule and_then_ReaderHandle)
   apply simp
  apply simp
  apply (intro impI and_then_ReaderHandle)
    apply simp_all
  done

lemma write_task_closes:
  "closes_only_when_drained h (calls s) \<Longrightarrow>
   closes_only_when_drained h (calls (state_of (write_task w e s)))"
  unfolding write_task_def Let_def
  apply (rule and_then_closes)
   apply simp
  apply simp
  apply (intro impI and_then_closes)
    apply simp_all
  done

lemma read_task_Task_Run [simp]:
  "read_task w e (s\<lparr>Task_Run := b\<rparr>) =
     map_outcome (\<lambda>t. t\<lparr>Task_Run := b\<rparr>) (read_task w e s)"
  unfolding read_task_def Let_def
  apply simp
  apply (intro impI and_then_Task_Run)
   apply simp_all
  done

lemma read_task_ReaderHandle [simp]:
  "RingIOReaderHandle (state_of (read_task w e s)) = RingIOReaderHandle s"
  unfolding read_task_def Let_def
  apply simp
  apply (intro impI and_then_ReaderHandle)
   apply simp_all
  done

lemma read_task_closes:
  "closes_only_when_drained h (calls s) \<Longrightarrow>
   closes_only_when_drained h (calls (state_of (read_task w e s)))"
  unfolding read_task_def Let_def
  apply simp
  apply (intro impI and_then_closes)
   apply simp_all
  done

lemma frame_Task_Run:
  "frame w e (s\<lparr>Task_Run := b\<rparr>) = map_outcome (\<lambda>t. t\<lparr>Task_Run := b\<rparr>) (frame w e s)"
  unfolding frame_def
  apply (intro and_then_Task_Run)
    apply simp_all
  done

lemma frame_ReaderHandle [simp]:
  "RingIOReaderHandle (state_of (frame w e s)) = RingIOReaderHandle s"
  unfolding frame_def
  apply (intro and_then_ReaderHandle)
    apply simp_all
  done

lemma frame_closes:
  "closes_only_when_drained h (calls s) \<Longrightarrow>
   closes_only_when_drained h (calls (state_of (frame w e s)))"
  unfolding frame_def
  apply (intro and_then_closes write_task_closes read_task_closes)
    apply simp_all
  done


lemma WriterClient1_frames_ReaderHandle [simp]:
  "RingIOReaderHandle (state_of (WriterClient1_frames w es s)) = RingIOReaderHandle s"
proof (induction es arbitrary: s)
  case Nil
  show ?case by simp
next
  case (Cons e es)
  show ?case
    by (simp add: Let_def, intro impI and_then_ReaderHandle) (simp_all add: Cons.IH)
qed

lemma WriterClient2_frames_ReaderHandle [simp]:
  "RingIOReaderHandle (state_of (WriterClient2_frames w es s)) = RingIOReaderHandle s"
proof (induction es arbitrary: s)
  case Nil
  show ?case by simp
next
  case (Cons e es)
  show ?case
    by (simp add: Let_def, intro conjI impI and_then_ReaderHandle) (simp_all add: Cons.IH)
qed

lemma WriterClient1_frames_closes:
  "closes_only_when_drained h (calls s) \<Longrightarrow>
   closes_only_when_drained h (calls (state_of (WriterClient1_frames w es s)))"
proof (induction es arbitrary: s)
  case Nil
  then show ?case by simp
next
  case (Cons e es)
  have "closes_only_when_drained h
          (calls (state_of (and_then (frame w e (emit (getchar (typed e)) s))
             (WriterClient1_frames w es))))"
    by (intro and_then_closes frame_closes Cons.IH) (simp_all add: Cons.prems)
  then show ?case using Cons.prems by (simp add: Let_def)
qed

lemma WriterClient2_frames_closes:
  "closes_only_when_drained h (calls s) \<Longrightarrow>
   closes_only_when_drained h (calls (state_of (WriterClient2_frames w es s)))"
proof (induction es arbitrary: s)
  case Nil
  then show ?case by simp
next
  case (Cons e es)
  have "closes_only_when_drained h
          (calls (state_of (and_then (frame w e (emit (RING_IO_Sleep 5000000) t))
             (WriterClient2_frames w es))))"
    if "calls t = calls s" for t
    by (intro and_then_closes frame_closes Cons.IH) (simp_all add: Cons.prems that)
  then show ?case using Cons.prems by (simp add: Let_def)
qed

text \<open>Opening closes nothing, and returns with the reader's handle set.\<close>

lemma set_writer_notifier_closes [simp]:
  "closes_only_when_drained h (calls (state_of (set_writer_notifier w sts s))) =
     closes_only_when_drained h (calls s)"
  by (induction sts arbitrary: s) (simp_all add: Let_def)

lemma set_reader_notifier_closes [simp]:
  "closes_only_when_drained h (calls (state_of (set_reader_notifier w sts s))) =
     closes_only_when_drained h (calls s)"
  by (induction sts arbitrary: s) (simp_all add: Let_def)

lemma set_reader_notifier_ReaderHandle [simp]:
  "RingIOReaderHandle (state_of (set_reader_notifier w sts s)) = RingIOReaderHandle s"
  by (induction sts arbitrary: s) (simp_all add: Let_def)

lemma open_reader_handle_closes [simp]:
  "closes_only_when_drained h (calls (state_of (open_reader_handle w oks s))) =
     closes_only_when_drained h (calls s)"
  by (induction oks arbitrary: s) (simp_all add: Let_def)

lemma open_reader_handle_result:
  "open_reader_handle w oks s = Returned t \<Longrightarrow> RingIOReaderHandle t = Some (RingIOReaderName w)"
  by (induction oks arbitrary: s) (auto simp: Let_def split: if_splits)

lemma and_then_Returned:
  "and_then x f = Returned t \<Longrightarrow> \<exists>u. x = Returned u \<and> f u = Returned t"
  by (cases x) simp_all

lemma client_open_closes:
  "closes_only_when_drained h (calls s) \<Longrightarrow>
   closes_only_when_drained h (calls (state_of (client_open w e s)))"
  unfolding client_open_def Let_def
  apply (rule and_then_closes)
   apply (simp add: create_writer_sem_def open_writer_handle_def Let_def)
  apply (intro and_then_closes)
   apply (simp_all add: create_reader_sem_def)
  done

lemma client_open_result:
  assumes "client_open w e s = Returned t"
  shows "RingIOReaderHandle t = Some (RingIOReaderName w)"
proof -
  from assms obtain u1 u2 where
    o: "open_reader_handle w (open_reader e) u1 = Returned u2"
    and f: "(let s4 = create_reader_sem e u2
             in if DSP_SUCCEEDED (status s4)
                then set_reader_notifier w (set_notifier_reader e) s4
                else Returned s4) = Returned t"
    unfolding client_open_def Let_def by (blast dest: and_then_Returned)
  have "RingIOReaderHandle u2 = Some (RingIOReaderName w)"
    using o by (rule open_reader_handle_result)
  moreover have "RingIOReaderHandle t =
      RingIOReaderHandle (state_of (let s4 = create_reader_sem e u2
             in if DSP_SUCCEEDED (status s4)
                then set_reader_notifier w (set_notifier_reader e) s4
                else Returned s4))"
    using f by simp
  ultimately show ?thesis by (simp add: Let_def create_reader_sem_def)
qed


section \<open>Drain before close\<close>

text \<open>The drain loop: what it records, and when it returns.\<close>

lemma drain_wait_calls:
  "calls (state_of (drain_wait polls s)) =
     calls s @ concat (map (poll_calls (RingIOWriterHandle s)) (takeWhile (\<lambda>p. \<not> drained p) polls))
       @ (if returned (drain_wait polls s)
          then [RingIO_getValidSize (RingIOWriterHandle s) 0,
                RingIO_getValidAttrSize (RingIOWriterHandle s) 0]
          else [])"
  by (induction polls s rule: drain_wait.induct) (simp_all add: Let_def poll_calls_def drained_def)

lemma drain_wait_returned:
  "returned (drain_wait polls s) \<longleftrightarrow> (\<exists>p\<in>set polls. drained p)"
  by (induction polls s rule: drain_wait.induct) (auto simp: Let_def drained_def)

lemma drain_wait_handles [simp]:
  "RingIOWriterHandle (state_of (drain_wait polls s)) = RingIOWriterHandle s"
  "RingIOReaderHandle (state_of (drain_wait polls s)) = RingIOReaderHandle s"
  by (induction polls s rule: drain_wait.induct; simp add: Let_def)+

lemma polls_quiet:
  "\<forall>c\<in>set (concat (map (poll_calls h) ps)). \<forall>h' st. c \<noteq> RingIO_close h' st"
  by (induction ps) (auto simp: poll_calls_def)

lemma close_writer_closes:
  "closes_only_when_drained h (calls s) \<Longrightarrow>
   closes_only_when_drained h (calls (state_of (close_writer e s)))"
proof -
  assume a: "closes_only_when_drained h (calls s)"
  let ?ps = "concat (map (poll_calls (RingIOWriterHandle s)) (takeWhile (\<lambda>p. \<not> drained p) (valid_sizes e)))"
  have q: "closes_only_when_drained h (calls s @ ?ps)"
    using a polls_quiet by simp
  show ?thesis
  proof (cases "drain_wait (valid_sizes e) s")
    case (Returned t)
    then have c: "calls t = (calls s @ ?ps) @
        [RingIO_getValidSize (RingIOWriterHandle s) 0, RingIO_getValidAttrSize (RingIOWriterHandle s) 0]"
      and h: "RingIOWriterHandle t = RingIOWriterHandle s"
      using drain_wait_calls [of "valid_sizes e" s] drain_wait_handles(1) [of "valid_sizes e" s]
      by simp_all
    have "closes_only_when_drained h
            ((calls s @ ?ps) @
              [RingIO_getValidSize (RingIOWriterHandle s) 0,
               RingIO_getValidAttrSize (RingIOWriterHandle s) 0,
               RingIO_close (RingIOWriterHandle s) (close_writer_result e)])"
      using q by (simp only: cod_append_close_drained)
    then show ?thesis using Returned c h a by (simp add: close_writer_def)
  next
    case (Blocked t)
    then have "calls t = calls s @ ?ps"
      using drain_wait_calls [of "valid_sizes e" s] by simp
    then show ?thesis using Blocked q a by (simp add: close_writer_def)
  qed
qed

lemma close_writer_ReaderHandle [simp]:
  "RingIOReaderHandle (state_of (close_writer e s)) = RingIOReaderHandle s"
  unfolding close_writer_def
  by (simp, intro impI and_then_ReaderHandle) simp_all

lemma notify_dsp_end_quiet [simp]:
  "RingIOReaderHandle (state_of (notify_dsp_end sts s)) = RingIOReaderHandle s"
  "closes_only_when_drained h (calls (state_of (notify_dsp_end sts s))) =
     closes_only_when_drained h (calls s)"
  by (induction sts arbitrary: s; simp add: Let_def)+

lemma delete_sem_quiet [simp]:
  "RingIOReaderHandle (delete_sem p st s) = RingIOReaderHandle s"
  "closes_only_when_drained h (calls (delete_sem p st s)) = closes_only_when_drained h (calls s)"
  by (simp_all add: delete_sem_def Let_def)

lemma client_close_closes:
  assumes "closes_only_when_drained h (calls s)" and "RingIOReaderHandle s \<noteq> h"
  shows "closes_only_when_drained h (calls (state_of (client_close e s)))"
proof -
  let ?I = "\<lambda>t. closes_only_when_drained h (calls t) \<and> RingIOReaderHandle t \<noteq> h"
  have 1: "?I (state_of (notify_dsp_end (dsp_end_results e) s))"
    using assms by simp
  have 2: "?I (state_of (close_writer e (delete_sem (semPtrWriter t) (delete_sem_writer e) t)))"
    if "?I t" for t
    using that by (simp add: close_writer_closes)
  have 3: "closes_only_when_drained h (calls (emit RING_IO_Exit_client
             (close_reader e (delete_sem (semPtrReader t) (delete_sem_reader e) t))))"
    if "?I t" for t
    using that by (simp add: close_reader_def)
  show ?thesis
    unfolding client_close_def
  proof (cases "notify_dsp_end (dsp_end_results e) s")
    case (Blocked t)
    then show "closes_only_when_drained h (calls (state_of (and_then
        (notify_dsp_end (dsp_end_results e) s)
        (\<lambda>s1. and_then (close_writer e (delete_sem (semPtrWriter s1) (delete_sem_writer e) s1))
           (\<lambda>s2. Returned (emit RING_IO_Exit_client
              (close_reader e (delete_sem (semPtrReader s2) (delete_sem_reader e) s2))))))))"
      using 1 by simp
  next
    case (Returned t)
    then have t: "?I t" using 1 by simp
    show "closes_only_when_drained h (calls (state_of (and_then
        (notify_dsp_end (dsp_end_results e) s)
        (\<lambda>s1. and_then (close_writer e (delete_sem (semPtrWriter s1) (delete_sem_writer e) s1))
           (\<lambda>s2. Returned (emit RING_IO_Exit_client
              (close_reader e (delete_sem (semPtrReader s2) (delete_sem_reader e) s2))))))))"
    proof (cases "close_writer e (delete_sem (semPtrWriter t) (delete_sem_writer e) t)")
      case (Blocked u)
      then show ?thesis using Returned 2 [OF t] by simp
    next
      case u: (Returned u)
      then have "?I u" using 2 [OF t] by simp
      then show ?thesis using Returned u 3 [of u] by simp
    qed
  qed
qed


lemma client_entry_calls [simp]: "calls (client_entry w s) = calls s"
  by (simp add: client_entry_def)

lemma worker_closes_only_when_drained:
  assumes fr: "\<And>t. RingIOReaderHandle (state_of (fs t)) = RingIOReaderHandle t"
    and fc: "\<And>t. closes_only_when_drained h (calls t) \<Longrightarrow>
               closes_only_when_drained h (calls (state_of (fs t)))"
    and ne: "Some (RingIOReaderName w) \<noteq> h"
    and s: "closes_only_when_drained h (calls s)"
  shows "closes_only_when_drained h
           (calls (state_of (and_then (client_open w oe (client_entry w s))
              (\<lambda>s1. and_then (fs s1) (\<lambda>s2. client_close ce s2)))))"
proof (cases "client_open w oe (client_entry w s)")
  case (Blocked t)
  then have "t = state_of (client_open w oe (client_entry w s))" by simp
  then have "closes_only_when_drained h (calls t)"
    using client_open_closes [of h "client_entry w s" w oe] s by simp
  then show ?thesis using Blocked by simp
next
  case (Returned t)
  then have "t = state_of (client_open w oe (client_entry w s))" by simp
  then have c: "closes_only_when_drained h (calls t)"
    using client_open_closes [of h "client_entry w s" w oe] s by simp
  have r: "RingIOReaderHandle t = Some (RingIOReaderName w)"
    using Returned by (rule client_open_result)
  show ?thesis
  proof (cases "fs t")
    case (Blocked u)
    then show ?thesis using Returned fc [OF c] by simp
  next
    case u: (Returned u)
    then have "closes_only_when_drained h (calls u)" and "RingIOReaderHandle u \<noteq> h"
      using fc [OF c] fr [of t] r ne by simp_all
    then have "closes_only_when_drained h (calls (state_of (client_close ce u)))"
      by (rule client_close_closes)
    then show ?thesis using Returned u by simp
  qed
qed

text \<open>
  C6. In a run of either worker function, of any length and against any environment,
  started with an empty record of calls: every \<open>RingIO_close\<close> on the worker's writer
  handle comes directly after \<open>RingIO_getValidSize\<close> and \<open>RingIO_getValidAttrSize\<close> on
  that handle both returned 0. Until a poll finds both 0 the drain loop records the
  poll and \<open>RING_IO_Sleep (10)\<close> and nothing else, and it returns exactly when a poll
  finds both 0.
\<close>

theorem writer_closes_only_when_drained:
  "calls s = [] \<Longrightarrow>
     closes_only_when_drained (Some RINGIO1) (calls (state_of (RING_IO_WriterClient1 g e s)))
   \<and> closes_only_when_drained (Some RINGIO3) (calls (state_of (RING_IO_WriterClient2 g e s)))
   \<and> calls (state_of (drain_wait polls s')) =
        calls s' @ concat (map (poll_calls (RingIOWriterHandle s'))
                             (takeWhile (\<lambda>p. \<not> drained p) polls))
          @ (if returned (drain_wait polls s')
             then [RingIO_getValidSize (RingIOWriterHandle s') 0,
                   RingIO_getValidAttrSize (RingIOWriterHandle s') 0]
             else [])
   \<and> returned (drain_wait polls s') = (\<exists>p\<in>set polls. drained p)"
proof -
  assume e: "calls s = []"
  have 0: "closes_only_when_drained h (calls s)" for h
    using e by (simp add: closes_only_when_drained_def)
  have 1: "closes_only_when_drained (Some RINGIO1) (calls (state_of (RING_IO_WriterClient1 g e s)))"
    unfolding RING_IO_WriterClient1_def
    by (rule worker_closes_only_when_drained)
       (simp_all add: WriterClient1_frames_closes 0 worker1_def)
  have 2: "closes_only_when_drained (Some RINGIO3) (calls (state_of (RING_IO_WriterClient2 g e s)))"
    unfolding RING_IO_WriterClient2_def
    by (rule worker_closes_only_when_drained)
       (simp_all add: WriterClient2_frames_closes 0 worker2_def)
  from 1 2 drain_wait_calls [of polls s'] drain_wait_returned [of polls s']
  show ?thesis by blast
qed

theorem writer_closes_only_when_drained_witness:
  "calls idle_client = []
   \<and> calls (state_of (RING_IO_WriterClient1 aligned_sizes stop_at_once idle_client)) =
       [RingIO_open RINGIO1 RINGIO_MODE_WRITE True (Some RINGIO1),
        RING_IO_CreateSem DSP_SOK (Some 1),
        RingIO_setNotifier (Some RINGIO1) RINGIO_NOTIFICATION_ONCE 1024 RING_IO_Writer_Notify1
          (Some 1) DSP_SOK,
        RingIO_open RINGIO2 RINGIO_MODE_READ False (Some RINGIO2),
        RING_IO_CreateSem DSP_SOK (Some 2),
        RingIO_setNotifier (Some RINGIO2) RINGIO_NOTIFICATION_ONCE 0 RING_IO_Reader_Notify1
          (Some 2) DSP_SOK,
        getchar CHR ''.'',
        RingIO_sendNotify (Some RINGIO1) NOTIFY_DSP_END DSP_SOK,
        RING_IO_DeleteSem (Some 1) DSP_SOK,
        RingIO_getValidSize (Some RINGIO1) 512, RING_IO_Sleep 10,
        RingIO_getValidSize (Some RINGIO1) 0, RingIO_getValidAttrSize (Some RINGIO1) 8,
        RING_IO_Sleep 10,
        RingIO_getValidSize (Some RINGIO1) 0, RingIO_getValidAttrSize (Some RINGIO1) 0,
        RingIO_close (Some RINGIO1) DSP_SOK,
        RING_IO_DeleteSem (Some 2) DSP_SOK,
        RingIO_close (Some RINGIO2) DSP_SOK,
        RING_IO_Exit_client]
   \<and> closes_only_when_drained (Some RINGIO1)
        (calls (state_of (RING_IO_WriterClient1 aligned_sizes stop_at_once idle_client)))
   \<and> returned (drain_wait [(512, 0), (0, 8), (0, 0)] idle_client)"
proof -
  have c: "calls (state_of (RING_IO_WriterClient1 aligned_sizes stop_at_once idle_client)) =
       [RingIO_open RINGIO1 RINGIO_MODE_WRITE True (Some RINGIO1),
        RING_IO_CreateSem DSP_SOK (Some 1),
        RingIO_setNotifier (Some RINGIO1) RINGIO_NOTIFICATION_ONCE 1024 RING_IO_Writer_Notify1
          (Some 1) DSP_SOK,
        RingIO_open RINGIO2 RINGIO_MODE_READ False (Some RINGIO2),
        RING_IO_CreateSem DSP_SOK (Some 2),
        RingIO_setNotifier (Some RINGIO2) RINGIO_NOTIFICATION_ONCE 0 RING_IO_Reader_Notify1
          (Some 2) DSP_SOK,
        getchar CHR ''.'',
        RingIO_sendNotify (Some RINGIO1) NOTIFY_DSP_END DSP_SOK,
        RING_IO_DeleteSem (Some 1) DSP_SOK,
        RingIO_getValidSize (Some RINGIO1) 512, RING_IO_Sleep 10,
        RingIO_getValidSize (Some RINGIO1) 0, RingIO_getValidAttrSize (Some RINGIO1) 8,
        RING_IO_Sleep 10,
        RingIO_getValidSize (Some RINGIO1) 0, RingIO_getValidAttrSize (Some RINGIO1) 0,
        RingIO_close (Some RINGIO1) DSP_SOK,
        RING_IO_DeleteSem (Some 2) DSP_SOK,
        RingIO_close (Some RINGIO2) DSP_SOK,
        RING_IO_Exit_client]"
    by (simp add: RING_IO_WriterClient1_def stop_at_once_def open_at_once_def stop_typed_def
          close_after_def idle_client_def client_entry_def client_open_def client_close_def
          open_writer_handle_def create_writer_sem_def create_reader_sem_def close_writer_def
          close_reader_def delete_sem_def worker1_def aligned_sizes_def RING_IO_Create_sizes_def
          Let_def DSP_FAILED_def emit_def)
  have i: "calls idle_client = []" by (simp add: idle_client_def)
  show ?thesis
    using writer_closes_only_when_drained [OF i, of aligned_sizes stop_at_once
            "[(512, 0), (0, 8), (0, 0)]" idle_client] c i
    by (simp add: drained_def)
qed

section \<open>Cancellation\<close>

lemma state_of_map_outcome [simp]: "state_of (map_outcome f x) = f (state_of x)"
  by (cases x) simp_all

lemma returned_map_outcome [simp]: "returned (map_outcome f x) = returned x"
  by (cases x) simp_all

text \<open>
  C8. \<open>RING_IO_WriterClient2\<close> reads \<open>Task_Run\<close> once per pass of its outer loop, after
  the sleep that opens the pass: when the flag is \<open>FALSE\<close> there (by the other worker's
  store) it leaves the loop with nothing of a frame done, otherwise it runs the frame
  and comes back to the read. No part of a frame reads or writes the flag: the frame,
  its streaming loop and its reading loop, and each of their passes, started from any
  state, do the same with the flag \<open>TRUE\<close> or \<open>FALSE\<close> and hand it on unchanged. So a store
  to the flag at any point inside a frame changes nothing before the next pass of the
  outer loop.
\<close>

theorem Task_Run_polled_between_frames_only:
  "WriterClient2_frames w (e # es) s =
      (if Task_Run s \<and> \<not> peer_stopped e
       then and_then (frame w e (emit (RING_IO_Sleep 5000000) s)) (WriterClient2_frames w es)
       else Returned (emit (RING_IO_Sleep 5000000) (s\<lparr>Task_Run := False\<rparr>)))
   \<and> frame w e (s\<lparr>Task_Run := b\<rparr>) = map_outcome (\<lambda>t. t\<lparr>Task_Run := b\<rparr>) (frame w e s)
   \<and> writer_stream w rs (s\<lparr>Task_Run := b\<rparr>) =
       map_outcome (\<lambda>t. t\<lparr>Task_Run := b\<rparr>) (writer_stream w rs s)
   \<and> READ_LOOP w rds (s\<lparr>Task_Run := b\<rparr>) =
       map_outcome (\<lambda>t. t\<lparr>Task_Run := b\<rparr>) (READ_LOOP w rds s)
   \<and> stream_body w r (s\<lparr>Task_Run := b\<rparr>) = (stream_body w r s)\<lparr>Task_Run := b\<rparr>
   \<and> read_body w rd (s\<lparr>Task_Run := b\<rparr>) = (read_body w rd s)\<lparr>Task_Run := b\<rparr>"
proof -
  have "s\<lparr>Task_Run := False\<rparr> = s" if "\<not> Task_Run s"
    using that by simp
  then have "WriterClient2_frames w (e # es) s =
      (if Task_Run s \<and> \<not> peer_stopped e
       then and_then (frame w e (emit (RING_IO_Sleep 5000000) s)) (WriterClient2_frames w es)
       else Returned (emit (RING_IO_Sleep 5000000) (s\<lparr>Task_Run := False\<rparr>)))"
    by (auto simp: Let_def)
  then show ?thesis
    using frame_Task_Run writer_stream_Task_Run READ_LOOP_Task_Run stream_body_Task_Run
      read_body_Task_Run
    by (simp only: simp_thms)
qed

theorem Task_Run_polled_between_frames_only_witness:
  "returned (frame (worker2 aligned_sizes) two_chunk_frame
       ((opened_client (worker2 aligned_sizes))\<lparr>Task_Run := False\<rparr>))
   \<and> calls (state_of (frame (worker2 aligned_sizes) two_chunk_frame
       ((opened_client (worker2 aligned_sizes))\<lparr>Task_Run := False\<rparr>))) =
      calls (state_of (frame (worker2 aligned_sizes) two_chunk_frame
       (opened_client (worker2 aligned_sizes))))
   \<and> filter accepted_release (calls (state_of (frame (worker2 aligned_sizes) two_chunk_frame
       ((opened_client (worker2 aligned_sizes))\<lparr>Task_Run := False\<rparr>)))) =
      [RingIO_release (Some RINGIO3) 1024 DSP_SOK, RingIO_release (Some RINGIO3) 1024 DSP_SOK,
       RingIO_release (Some RINGIO4) 2048 DSP_SOK]
   \<and> WriterClient2_frames (worker2 aligned_sizes) [two_chunk_frame]
        ((opened_client (worker2 aligned_sizes))\<lparr>Task_Run := False\<rparr>) =
      Returned (emit (RING_IO_Sleep 5000000)
        ((opened_client (worker2 aligned_sizes))\<lparr>Task_Run := False\<rparr>))"
proof -
  let ?w = "worker2 aligned_sizes"
  let ?s = "opened_client ?w"
  have r: "returned (frame ?w two_chunk_frame ?s)"
    by (simp add: frame_def write_task_def read_task_def end_reader_task_def READ_LOOP_def
          send_data_start_def notify_data_end_def two_chunk_frame_def granted_def data_read_def
          data_end_read_def stream_body_def read_body_def read_data_def read_attribute_def
          worker2_def aligned_sizes_def RING_IO_Create_sizes_def opened_client_def
          Let_def DSP_FAILED_def emit_def notified_def RING_IO_Reader_Notify_def
          NOTIFY_DATA_START_def NOTIFY_DATA_END_def RINGIO_DATA_START_def RINGIO_DATA_END_def
          VerifyData_status)
  have c: "filter accepted_release (calls (state_of (frame ?w two_chunk_frame ?s))) =
      [RingIO_release (Some RINGIO3) 1024 DSP_SOK, RingIO_release (Some RINGIO3) 1024 DSP_SOK,
       RingIO_release (Some RINGIO4) 2048 DSP_SOK]"
    by (simp add: frame_def write_task_def read_task_def end_reader_task_def READ_LOOP_def
          send_data_start_def notify_data_end_def two_chunk_frame_def granted_def data_read_def
          data_end_read_def stream_body_def read_body_def read_data_def read_attribute_def
          worker2_def aligned_sizes_def RING_IO_Create_sizes_def opened_client_def
          Let_def DSP_FAILED_def emit_def notified_def RING_IO_Reader_Notify_def
          NOTIFY_DATA_START_def NOTIFY_DATA_END_def RINGIO_DATA_START_def RINGIO_DATA_END_def
          VerifyData_status)
  show ?thesis
    using Task_Run_polled_between_frames_only [of ?w two_chunk_frame "[]"
            "?s\<lparr>Task_Run := False\<rparr>" False "[]" "[]" "granted 1024" "data_read 2048"]
          Task_Run_polled_between_frames_only [of ?w two_chunk_frame "[]"
            ?s False "[]" "[]" "granted 1024" "data_read 2048"]
          r c
    by simp
qed

section \<open>The session controller\<close>

lemma processor_ids_simps [simp]:
  "processor_ids [] = []"
  "processor_ids (c # cs) = processor_of c @ processor_ids cs"
  "processor_ids (xs @ ys) = processor_ids xs @ processor_ids ys"
  by (simp_all add: processor_ids_def)

lemma ids_sys:
  "set (processor_ids (session_calls p)) \<subseteq> A \<Longrightarrow> set (processor_of c) \<subseteq> A \<Longrightarrow>
   set (processor_ids (session_calls (sys c st p))) \<subseteq> A"
  by (simp add: sys_def)

lemma ids_when_succeeded:
  "(\<And>q. set (processor_ids (session_calls q)) \<subseteq> A \<Longrightarrow>
         set (processor_ids (session_calls (f q))) \<subseteq> A) \<Longrightarrow>
   set (processor_ids (session_calls p)) \<subseteq> A \<Longrightarrow>
   set (processor_ids (session_calls (when_succeeded f p))) \<subseteq> A"
  by (simp add: when_succeeded_def)

lemma ids_cleanup_step:
  "set (processor_ids (session_calls p)) \<subseteq> A \<Longrightarrow> set (processor_of c) \<subseteq> A \<Longrightarrow>
   set (processor_ids (session_calls (cleanup_step c st p))) \<subseteq> A"
  by (simp add: cleanup_step_def Let_def)

lemma ids_and_then:
  assumes "set (processor_ids (session_calls (state_of x))) \<subseteq> A"
    and "\<And>q. set (processor_ids (session_calls q)) \<subseteq> A \<Longrightarrow>
           set (processor_ids (session_calls (state_of (f q)))) \<subseteq> A"
  shows "set (processor_ids (session_calls (state_of (and_then x f)))) \<subseteq> A"
  using assms by (cases x) simp_all

lemma RING_IO_Create_ids:
  "set (processor_ids (session_calls p)) \<subseteq> A \<Longrightarrow> processorId \<in> A \<Longrightarrow>
   set (processor_ids (session_calls (RING_IO_Create g e exe processorId p))) \<subseteq> A"
  unfolding RING_IO_Create_def Let_def
  by (intro ids_when_succeeded ids_sys) simp_all

lemma create_clients_ids:
  "set (processor_ids (session_calls p)) \<subseteq> A \<Longrightarrow>
   set (processor_ids (session_calls (create_clients e p))) \<subseteq> A"
  by (simp add: create_clients_def Let_def sys_def)

lemma join_clients_ids:
  "set (processor_ids (session_calls p)) \<subseteq> A \<Longrightarrow>
   set (processor_ids (session_calls (state_of (join_clients e p)))) \<subseteq> A"
  by (simp add: join_clients_def Let_def)

lemma RingIO_delete_loop_ids:
  "set (processor_ids (session_calls p)) \<subseteq> A \<Longrightarrow> processorId \<in> A \<Longrightarrow>
   set (processor_ids (session_calls (state_of (RingIO_delete_loop processorId name sts p)))) \<subseteq> A"
  by (induction sts arbitrary: p) (simp_all add: Let_def sys_def)

lemma RING_IO_Delete_ids:
  "set (processor_ids (session_calls p)) \<subseteq> A \<Longrightarrow> processorId \<in> A \<Longrightarrow>
   set (processor_ids (session_calls (state_of (RING_IO_Delete e processorId p)))) \<subseteq> A"
  unfolding RING_IO_Delete_def
  by (intro ids_and_then RingIO_delete_loop_ids) (simp_all add: ids_cleanup_step)

lemma RING_IO_Main_ids:
  "set (processor_ids cs) \<subseteq> A \<Longrightarrow> 0 \<in> A \<Longrightarrow>
   set (processor_ids (state_of (RING_IO_Main MAX_DSPS g e exe b t sp cs))) \<subseteq> A"
proof -
  assume a: "set (processor_ids cs) \<subseteq> A" "0 \<in> A"
  have j: "set (processor_ids (session_calls (state_of
        (and_then (join_clients e (create_clients e (RING_IO_Create g e x 0 p)))
           (RING_IO_Delete e 0))))) \<subseteq> A"
    if "set (processor_ids (session_calls p)) \<subseteq> A" for p x
    by (intro ids_and_then join_clients_ids create_clients_ids RING_IO_Create_ids
          RING_IO_Delete_ids that a)
  show ?thesis
  proof (cases exe)
    case None
    then show ?thesis using a by (simp add: RING_IO_Main_def sys_def)
  next
    case (Some x)
    let ?p = "\<lparr>session_status = DSP_SOK, session_calls = cs\<rparr>"
    let ?p1 = "if unat (0 :: Uint8) \<ge> MAX_DSPS
               then sys (Invalid_processor_print 0) DSP_EINVALIDARG ?p else ?p"
    have p1: "set (processor_ids (session_calls ?p1)) \<subseteq> A"
      using a by (simp add: sys_def)
    show ?thesis
    proof (cases "and_then (join_clients e (create_clients e (RING_IO_Create g e x 0 ?p1)))
           (RING_IO_Delete e 0)")
      case (Returned q)
      then show ?thesis using Some j [OF p1, of x] p1
        by (simp add: RING_IO_Main_def Let_def)
    next
      case (Blocked q)
      then show ?thesis using Some j [OF p1, of x] p1
        by (simp add: RING_IO_Main_def Let_def)
    qed
  qed
qed

lemma main_session_ok:
  assumes "unat (word_of_int (atoi a) :: Uint8) < MAX_PROCESSORS" and "0 < MAX_DSPS"
  shows "main MAX_PROCESSORS MAX_DSPS g session_ok [prog, exe, a] =
     Exit 0 (RING_IO_Main_call (Some exe) ''2048'' ''128'' a # session_ok_calls g exe)"
  using assms
  by (simp add: main_def RING_IO_Main_def RING_IO_Create_def RING_IO_Delete_def
        create_clients_def join_clients_def cleanup_step_def when_succeeded_def sys_def
        session_ok_def session_ok_calls_def Let_def DSP_FAILED_def SAMPLE_POOL_ID_def
        RING_IO_ATTR_BUF_SIZE_def)


lemma pre_sys:
  "\<exists>ext. session_calls p = cs0 @ ext \<Longrightarrow> \<exists>ext. session_calls (sys c st p) = cs0 @ ext"
  by (auto simp: sys_def)

lemma pre_when_succeeded:
  "(\<And>q. \<exists>ext. session_calls q = cs0 @ ext \<Longrightarrow> \<exists>ext. session_calls (f q) = cs0 @ ext) \<Longrightarrow>
   \<exists>ext. session_calls p = cs0 @ ext \<Longrightarrow>
   \<exists>ext. session_calls (when_succeeded f p) = cs0 @ ext"
  by (simp add: when_succeeded_def)

lemma pre_cleanup_step:
  "\<exists>ext. session_calls p = cs0 @ ext \<Longrightarrow>
   \<exists>ext. session_calls (cleanup_step c st p) = cs0 @ ext"
  by (auto simp: cleanup_step_def Let_def)

lemma pre_and_then:
  assumes "\<exists>ext. session_calls (state_of x) = cs0 @ ext"
    and "\<And>q. \<exists>ext. session_calls q = cs0 @ ext \<Longrightarrow>
           \<exists>ext. session_calls (state_of (f q)) = cs0 @ ext"
  shows "\<exists>ext. session_calls (state_of (and_then x f)) = cs0 @ ext"
  using assms by (cases x) simp_all

lemma RING_IO_Create_pre:
  "\<exists>ext. session_calls p = cs0 @ ext \<Longrightarrow>
   \<exists>ext. session_calls (RING_IO_Create g e exe processorId p) = cs0 @ ext"
  unfolding RING_IO_Create_def Let_def
  by (intro pre_when_succeeded pre_sys)

lemma create_clients_pre:
  "\<exists>ext. session_calls p = cs0 @ ext \<Longrightarrow>
   \<exists>ext. session_calls (create_clients e p) = cs0 @ ext"
  by (auto simp: create_clients_def Let_def sys_def)

lemma join_clients_pre:
  "\<exists>ext. session_calls p = cs0 @ ext \<Longrightarrow>
   \<exists>ext. session_calls (state_of (join_clients e p)) = cs0 @ ext"
  by (auto simp: join_clients_def Let_def)

lemma RingIO_delete_loop_pre:
  "\<exists>ext. session_calls p = cs0 @ ext \<Longrightarrow>
   \<exists>ext. session_calls (state_of (RingIO_delete_loop processorId name sts p)) = cs0 @ ext"
proof (induction sts arbitrary: p)
  case Nil
  then show ?case by simp
next
  case (Cons st sts)
  then obtain ext where e: "session_calls p = cs0 @ ext" by blast
  show ?case
  proof (cases "DSP_FAILED st")
    case True
    have "\<exists>ext. session_calls (sys (RING_IO_Sleep_main 10) st
            (p\<lparr>session_calls := session_calls p @ [RingIO_delete processorId name st]\<rparr>)) = cs0 @ ext"
      using e by (simp add: sys_def)
    from Cons.IH [OF this] show ?thesis using True by (simp add: Let_def)
  next
    case False
    then show ?thesis using e by (simp add: Let_def)
  qed
qed

lemma RING_IO_Delete_pre:
  "\<exists>ext. session_calls p = cs0 @ ext \<Longrightarrow>
   \<exists>ext. session_calls (state_of (RING_IO_Delete e processorId p)) = cs0 @ ext"
  unfolding RING_IO_Delete_def
  by (intro pre_and_then RingIO_delete_loop_pre) (simp_all add: pre_cleanup_step)

lemma RING_IO_Main_pre:
  "\<exists>ext. state_of (RING_IO_Main MAX_DSPS g e exe b t sp cs) = cs @ ext"
proof (cases exe)
  case None
  then show ?thesis by (simp add: RING_IO_Main_def sys_def)
next
  case (Some x)
  let ?p = "\<lparr>session_status = DSP_SOK, session_calls = cs\<rparr>"
  let ?p1 = "if unat (0 :: Uint8) \<ge> MAX_DSPS
             then sys (Invalid_processor_print 0) DSP_EINVALIDARG ?p else ?p"
  have p1: "\<exists>ext. session_calls ?p1 = cs @ ext"
    by (simp add: sys_def)
  have j: "\<exists>ext. session_calls (state_of
        (and_then (join_clients e (create_clients e (RING_IO_Create g e x 0 ?p1)))
           (RING_IO_Delete e 0))) = cs @ ext"
    by (intro pre_and_then join_clients_pre create_clients_pre RING_IO_Create_pre
          RING_IO_Delete_pre p1)
  show ?thesis
  proof (cases "and_then (join_clients e (create_clients e (RING_IO_Create g e x 0 ?p1)))
           (RING_IO_Delete e 0)")
    case (Returned q)
    then show ?thesis using Some j p1 by (simp add: RING_IO_Main_def Let_def)
  next
    case (Blocked q)
    then show ?thesis using Some j p1 by (simp add: RING_IO_Main_def Let_def)
  qed
qed

lemma Uint8_of_small_int:
  "0 \<le> k \<Longrightarrow> unat (word_of_int k :: Uint8) \<le> nat k"
proof -
  assume a: "0 \<le> k"
  have "uint (word_of_int k :: Uint8) = k mod 2 ^ 8"
    by (simp add: uint_word_of_int take_bit_eq_mod)
  also have "\<dots> \<le> k" using a by (rule zmod_le_nonneg_dividend)
  finally have "uint (word_of_int k :: Uint8) \<le> k" .
  then show ?thesis by (simp add: unat_eq_nat_uint nat_mono del: nat_uint_eq)
qed

lemma main_calls:
  assumes "unat (word_of_int (atoi a) :: Uint8) < MAX_PROCESSORS"
  shows "calls_of (main MAX_PROCESSORS MAX_DSPS g e [prog, exe, a]) =
           state_of (RING_IO_Main MAX_DSPS g e (Some exe) ''2048'' ''128'' a
             [RING_IO_Main_call (Some exe) ''2048'' ''128'' a])"
  using assms by (simp add: main_def Let_def split: outcome.splits)

text \<open>
  C10. For every invocation whose \<open>argv [2]\<close> parses to a number above 0 and below
  \<open>MAX_PROCESSORS\<close>: \<open>main\<close> enters \<open>RING_IO_Main\<close> with that string, and every call
  \<open>RING_IO_Main\<close> then makes that takes a processor id takes 0, whatever the environment
  answers; in a session where every call succeeds these are the attach, the pool open,
  the image load, the two channel creations, the start and the whole teardown.
  \<open>RING_IO_Main\<close> does the same for any \<open>strProcessorId\<close> as for \<open>"0"\<close>.
\<close>

theorem processor_id_argument_ignored:
  "0 < atoi a \<Longrightarrow> atoi a < int MAX_PROCESSORS \<Longrightarrow>
     (\<exists>cs. calls_of (main MAX_PROCESSORS MAX_DSPS g e [prog, exe, a]) =
             RING_IO_Main_call (Some exe) ''2048'' ''128'' a # cs
         \<and> set (processor_ids cs) \<subseteq> {0})
   \<and> (0 < MAX_DSPS \<longrightarrow>
        main MAX_PROCESSORS MAX_DSPS g session_ok [prog, exe, a] =
          Exit 0 (RING_IO_Main_call (Some exe) ''2048'' ''128'' a # session_ok_calls g exe))
   \<and> RING_IO_Main MAX_DSPS g e x b t a cs0 = RING_IO_Main MAX_DSPS g e x b t ''0'' cs0"
proof -
  assume k: "0 < atoi a" "atoi a < int MAX_PROCESSORS"
  have "unat (word_of_int (atoi a) :: Uint8) \<le> nat (atoi a)"
    using k by (intro Uint8_of_small_int) simp
  with k have lt: "unat (word_of_int (atoi a) :: Uint8) < MAX_PROCESSORS" by linarith
  let ?c = "RING_IO_Main_call (Some exe) ''2048'' ''128'' a"
  let ?r = "state_of (RING_IO_Main MAX_DSPS g e (Some exe) ''2048'' ''128'' a [?c])"
  obtain ext where ext: "?r = [?c] @ ext" using RING_IO_Main_pre by blast
  have "set (processor_ids ?r) \<subseteq> {0}"
    by (rule RING_IO_Main_ids) simp_all
  then have "set (processor_ids ext) \<subseteq> {0}" using ext by simp
  then have 1: "\<exists>cs. calls_of (main MAX_PROCESSORS MAX_DSPS g e [prog, exe, a]) = ?c # cs
         \<and> set (processor_ids cs) \<subseteq> {0}"
    using main_calls [OF lt, of MAX_DSPS g e prog exe] ext by simp
  have 2: "0 < MAX_DSPS \<longrightarrow>
        main MAX_PROCESSORS MAX_DSPS g session_ok [prog, exe, a] =
          Exit 0 (?c # session_ok_calls g exe)"
    using main_session_ok [OF lt] by blast
  have 3: "RING_IO_Main MAX_DSPS g e x b t a cs0 = RING_IO_Main MAX_DSPS g e x b t ''0'' cs0"
    by (simp add: RING_IO_Main_def)
  from 1 2 3 show ?thesis by blast
qed

lemma atoi_1: "atoi ''1'' = 1"
  by (simp add: atoi_def isspace_def isdigit_def)

theorem processor_id_argument_ignored_witness:
  "0 < atoi ''1'' \<and> atoi ''1'' < int 2
   \<and> main 2 1 aligned_sizes session_ok [''ringio_gpp'', ''ringio.out'', ''1''] =
       Exit 0 (RING_IO_Main_call (Some ''ringio.out'') ''2048'' ''128'' ''1''
               # session_ok_calls aligned_sizes ''ringio.out'')
   \<and> processor_ids (session_ok_calls aligned_sizes ''ringio.out'') = [0, 0, 0, 0, 0, 0, 0, 0, 0, 0, 0]"
  using processor_id_argument_ignored [of "''1''" 2 1 aligned_sizes session_ok "''ringio_gpp''"
          "''ringio.out''" "Some ''ringio.out''" "''2048''" "''128''" "[]"]
  by (simp add: atoi_1 session_ok_calls_def)

section \<open>Where the code departs from the claims\<close>

text \<open>
  Whenever \<open>main\<close> returns, it returns 0.
\<close>

lemma main_returns_0: "main MAX_PROCESSORS MAX_DSPS g e argv = Exit n cs \<Longrightarrow> n = 0"
  by (auto simp: main_def Let_def split: if_splits outcome.splits)

lemma main_usage:
  "length argv \<noteq> 2 \<Longrightarrow> length argv \<noteq> 3 \<Longrightarrow>
   main MAX_PROCESSORS MAX_DSPS g e argv = Exit 0 [Usage_print]"
  by (simp add: main_def)

lemma main_rejects:
  "MAX_PROCESSORS \<le> unat (word_of_int (atoi a) :: Uint8) \<Longrightarrow>
   main MAX_PROCESSORS MAX_DSPS g e [prog, exe, a] = Exit 0 []"
  by (simp add: main_def)

text \<open>
  C7 says that no transfer is attempted when the processor id argument is at or above
  the configured processor count. The code does not keep to it: \<open>processorId\<close> is a
  \<open>Uint8\<close>, so the argument \<open>"256"\<close> is stored as 0 and passes the test
  \<open>processorId < MAX_PROCESSORS\<close> for every count above 0; \<open>main\<close> enters
  \<open>RING_IO_Main\<close>, which runs the whole session (and \<open>main\<close> returns 0).
\<close>

theorem processor_id_256_is_accepted:
  "0 < MAX_PROCESSORS \<Longrightarrow> 0 < MAX_DSPS \<Longrightarrow>
     atoi ''256'' = 256
   \<and> main MAX_PROCESSORS MAX_DSPS g session_ok [prog, exe, ''256''] =
       Exit 0 (RING_IO_Main_call (Some exe) ''2048'' ''128'' ''256'' # session_ok_calls g exe)"
proof -
  assume a: "0 < MAX_PROCESSORS" "0 < MAX_DSPS"
  have v: "atoi ''256'' = 256"
    by (simp add: atoi_def isspace_def isdigit_def)
  then have "unat (word_of_int (atoi ''256'') :: Uint8) = 0" by simp
  then have "unat (word_of_int (atoi ''256'') :: Uint8) < MAX_PROCESSORS" using a by simp
  from main_session_ok [OF this a(2)] v show ?thesis by blast
qed

theorem processor_id_256_is_accepted_witness:
  "(0 :: nat) < 2 \<and> (0 :: nat) < 1 \<and> int 2 \<le> atoi ''256''
   \<and> main 2 1 aligned_sizes session_ok [''ringio_gpp'', ''ringio.out'', ''256''] =
       Exit 0 (RING_IO_Main_call (Some ''ringio.out'') ''2048'' ''128'' ''256''
               # session_ok_calls aligned_sizes ''ringio.out'')"
  using processor_id_256_is_accepted [of 2 1 aligned_sizes "''ringio_gpp''" "''ringio.out''"]
  by simp

text \<open>
  C3 says that \<open>RING_IO_Reader_VerifyData\<close> returns \<open>DSP_EFAIL\<close> for a buffer that does
  not hold the fill pattern. The code does not: its comparison is inside a comment, and
  it returns \<open>DSP_SOK\<close> for every buffer, here for the four bytes 0, 1, 2, 3. The
  reader's loop goes on past such a buffer, and prints no failure message either.
\<close>

theorem VerifyData_accepts_mismatch:
  "map (\<lambda>k. of_nat k :: Uint8) [0, 1, 2, 3] = [0, 1, 2, 3]
   \<and> fst (RING_IO_Reader_VerifyData (\<lambda>k. of_nat k) 4) = DSP_SOK
   \<and> calls (state_of (READ_LOOP (worker1 aligned_sizes) [garbled_read 4, data_end_read]
        (opened_client (worker1 aligned_sizes)))) =
      [RingIO_acquire (Some RINGIO2) 4096 DSP_SOK 4,
       RingIO_release (Some RINGIO2) 4 DSP_SOK,
       RingIO_acquire (Some RINGIO2) 4092 RINGIO_SPENDINGATTRIBUTE 0,
       RingIO_getAttribute (Some RINGIO2) DSP_SOK RINGIO_DATA_END]"
  by (simp add: VerifyData_status READ_LOOP_def read_body_def read_data_def read_attribute_def
        garbled_read_def data_read_def data_end_read_def worker1_def aligned_sizes_def
        RING_IO_Create_sizes_def opened_client_def Let_def emit_def notified_def)


lemma WriterClient1_watermark: "writer_watermark (worker1 g) = RING_IO_BytesToTransfer (worker1 g)"
  by (simp add: worker1_def)

lemma WriterClient2_watermark: "writer_watermark (worker2 g) = 1024"
  by (simp add: worker2_def RING_IO_WRITER_BUF_SIZE_def)

text \<open>
  C4 says that the writer's notifier of both workers is registered at the worker's
  frame size. \<open>RING_IO_WriterClient1\<close> does so; \<open>RING_IO_WriterClient2\<close> registers
  \<open>RING_IO_WRITER_BUF_SIZE\<close>, which is 1024, while its frame is
  \<open>RING_IO_BytesToTransfer2\<close>, 2048 bytes. Both register a
  \<open>RINGIO_NOTIFICATION_ONCE\<close> notifier with the semaphore the worker created.
\<close>

theorem WriterClient2_watermark_is_not_frame_size:
  "calls (state_of (client_open (worker2 aligned_sizes) open_at_once
      (client_entry (worker2 aligned_sizes) idle_client))) =
     [RingIO_open RINGIO3 RINGIO_MODE_WRITE True (Some RINGIO3),
      RING_IO_CreateSem DSP_SOK (Some 1),
      RingIO_setNotifier (Some RINGIO3) RINGIO_NOTIFICATION_ONCE 1024 RING_IO_Writer_Notify2
        (Some 1) DSP_SOK,
      RingIO_open RINGIO4 RINGIO_MODE_READ False (Some RINGIO4),
      RING_IO_CreateSem DSP_SOK (Some 2),
      RingIO_setNotifier (Some RINGIO4) RINGIO_NOTIFICATION_ONCE 0 RING_IO_Reader_Notify2
        (Some 2) DSP_SOK]
   \<and> RING_IO_BytesToTransfer (worker2 aligned_sizes) = 2048"
  by (simp add: client_open_def open_writer_handle_def create_writer_sem_def
        create_reader_sem_def open_at_once_def client_entry_def idle_client_def worker2_def
        aligned_sizes_def RING_IO_Create_sizes_def RING_IO_WRITER_BUF_SIZE_def
        Let_def DSP_FAILED_def emit_def)

end
